theory Spec2Isabelle
  imports Complex_Main "HOL-Library.Sublist"
begin

section \<open>Python values used by the emotion pipeline\<close>

text \<open>
  Python strings are modelled by \<^typ>\<open>string\<close>: one \<^typ>\<open>char\<close> per code point, for the
  code points below 256. Finite floats are modelled by the rational number they denote
  (\<^typ>\<open>rat\<close>). Exceptions are values of \<open>py_error\<close>; a function that may raise returns
  \<open>py_error + 'a\<close>.
\<close>

datatype py_error =
    RuntimeError
  | TypeError
  | ValueError
  | KeyError
  | AttributeError
  | OverflowError
  | FileNotFoundError
  | RequestException
  | HTTPError
  | JSONDecodeError
  | CsvError
  | CalledProcessError
  | HTTPException nat string

type_synonym score = "rat option"

subsection \<open>\<open>str\<close> methods\<close>

definition is_space :: "char \<Rightarrow> bool" where
  \<comment> \<open>\<open>str.isspace\<close> and the regex class \<open>\s\<close>, on code points below 256\<close>
  "is_space c = (of_char c \<in> {9, 10, 11, 12, 13, 28, 29, 30, 31, 32, 133, 160 :: nat})"

definition lower_char :: "char \<Rightarrow> char" where
  "lower_char c =
     (let n = (of_char c :: nat)
      in if (65 \<le> n \<and> n \<le> 90) \<or> (192 \<le> n \<and> n \<le> 222 \<and> n \<noteq> 215)
         then char_of (n + 32) else c)"

definition lower :: "string \<Rightarrow> string" where
  "lower s = map lower_char s"

definition strip :: "string \<Rightarrow> string" where
  "strip s = rev (dropWhile is_space (rev (dropWhile is_space s)))"

definition startswith :: "string \<Rightarrow> string \<Rightarrow> bool" where
  "startswith s p = (take (length p) s = p)"

definition capitalize :: "string \<Rightarrow> string" where
  \<comment> \<open>\<open>str.capitalize\<close> for a string that starts with an ASCII character, as the plan
      names do\<close>
  "capitalize s =
     (case s of [] \<Rightarrow> []
      | c # cs \<Rightarrow>
          (let n = (of_char c :: nat)
           in (if 97 \<le> n \<and> n \<le> 122 then char_of (n - 32) else c)) # lower cs)"

subsection \<open>The two regular expressions of the classifier\<close>

definition is_ascii_letter :: "char \<Rightarrow> bool" where
  \<comment> \<open>\<open>[a-z]\<close> under \<open>re.IGNORECASE\<close>\<close>
  "is_ascii_letter c =
     (let n = (of_char c :: nat) in (65 \<le> n \<and> n \<le> 90) \<or> (97 \<le> n \<and> n \<le> 122))"

definition match_key_at :: "string \<Rightarrow> string \<Rightarrow> string option" where
  \<comment> \<open>\<open>key\s*([a-z]+)\<close> matched at the start of \<open>s\<close>, case-insensitively; group 1\<close>
  "match_key_at key s =
     (if lower (take (length key) s) = lower key
      then (let g = takeWhile is_ascii_letter (dropWhile is_space (drop (length key) s))
            in if g = [] then None else Some g)
      else None)"

fun re_search_key :: "string \<Rightarrow> string \<Rightarrow> string option" where
  \<comment> \<open>\<open>re.search\<close>: the leftmost position where the pattern matches\<close>
  "re_search_key key [] = match_key_at key []"
| "re_search_key key (c # cs) =
     (case match_key_at key (c # cs) of
        Some g \<Rightarrow> Some g
      | None \<Rightarrow> re_search_key key cs)"

section \<open>Emotion tiers (\<open>emotion_tiers.py\<close>)\<close>

definition BASIC_LABELS :: "string list" where
  "BASIC_LABELS =
     [''happy'', ''sad'', ''mad'', ''scared'', ''surprised'', ''disgusted'', ''neutral'']"

definition PLUS_LABELS :: "string list" where
  "PLUS_LABELS =
     [''excitement'', ''confusion'', ''surprise'', ''neutral'', ''optimism'', ''pride'',
      ''curiosity'', ''fear'', ''amusement'', ''joy'', ''desire'', ''annoyance'',
      ''nervousness'', ''gratitude'', ''approval'', ''realization'', ''disappointment'',
      ''caring'', ''sadness'', ''admiration'', ''disapproval'', ''anger'', ''remorse'']"

definition PRO_LABELS :: "string list" where
  "PRO_LABELS =
     [''excitement'', ''confusion'', ''surprise'', ''neutral'', ''optimism'', ''pride'',
      ''curiosity'', ''fear'', ''amusement'', ''joy'', ''desire'', ''annoyance'',
      ''nervousness'', ''gratitude'', ''approval'', ''realization'', ''disappointment'',
      ''caring'', ''sadness'', ''admiration'', ''disapproval'', ''anger'', ''remorse'',
      ''relief'', ''love'', ''disgust'', ''embarrassment'']"

datatype tier = Basic | Plus | Pro

fun EMOTION_TIERS :: "tier \<Rightarrow> string list" where
  "EMOTION_TIERS Basic = BASIC_LABELS"
| "EMOTION_TIERS Plus = PLUS_LABELS"
| "EMOTION_TIERS Pro = PRO_LABELS"

definition tier_of :: "bool \<Rightarrow> bool \<Rightarrow> tier" where
  \<comment> \<open>\<open>"pro" if do_intensity else ("plus" if classify_ext else "basic")\<close>\<close>
  "tier_of classify_ext do_intensity =
     (if do_intensity then Pro else (if classify_ext then Plus else Basic))"

section \<open>Adapter A: the chat-completion classifier (\<open>classifier.py\<close>)\<close>

text \<open>
  \<open>_call_llama\<close> posts to the configured model and then to each fallback model, in order,
  and returns the content of the first reply that arrives without an exception. The
  outcomes of the endpoints are the input of the model: \<open>None\<close> for an attempt that raised,
  \<open>Some content\<close> for a reply.
\<close>

fun call_llama :: "string option list \<Rightarrow> py_error + string" where
  "call_llama [] = Inl RuntimeError"
| "call_llama (None # rest) = call_llama rest"
| "call_llama (Some content # rest) = Inr content"

definition extract_emotion :: "string \<Rightarrow> string" where
  "extract_emotion text =
     (case re_search_key ''Answer:'' text of
        Some g \<Rightarrow> lower g
      | None \<Rightarrow> lower (strip text))"

definition intensity_mapping :: "(string \<times> rat) list" where
  "intensity_mapping =
     [(''neutral'', 0), (''mild'', 1/4), (''moderate'', 1/2), (''strong'', 3/4),
      (''intense'', 1)]"

definition parse_intensity :: "bool \<Rightarrow> string \<Rightarrow> score" where
  \<comment> \<open>the \<open>if do_intensity:\<close> block shared by both Adapter A functions\<close>
  "parse_intensity do_intensity content =
     (if do_intensity
      then (case re_search_key ''Intensity:'' content of
              Some g \<Rightarrow>
                (case map_of intensity_mapping (lower g) of
                   Some v \<Rightarrow> Some v
                 | None \<Rightarrow> Some 0)
            | None \<Rightarrow> None)
      else None)"

definition predict_emotion_llama ::
  "string option list \<Rightarrow> string \<Rightarrow> bool \<Rightarrow> bool \<Rightarrow> py_error + (string \<times> score)" where
  \<comment> \<open>\<open>replies\<close>: what the endpoints answer to the prompt built for \<open>sentence\<close> and the tier\<close>
  "predict_emotion_llama replies sentence classify_ext do_intensity =
     (let allowed = EMOTION_TIERS (tier_of classify_ext do_intensity)
      in case call_llama replies of
           Inl e \<Rightarrow> Inl e
         | Inr content \<Rightarrow>
             (let emo = extract_emotion content;
                  emo = (if emo \<notin> set allowed then ''neutral'' else emo)
              in Inr (emo, parse_intensity do_intensity content)))"

definition review_emotion_llama ::
  "string option list \<Rightarrow> string \<Rightarrow> string \<Rightarrow> string \<Rightarrow> bool \<Rightarrow> bool
     \<Rightarrow> py_error + (string \<times> score)" where
  "review_emotion_llama replies sentence predicted actual classify_ext do_intensity =
     (let allowed = EMOTION_TIERS (tier_of classify_ext do_intensity)
      in case call_llama replies of
           Inl e \<Rightarrow> Inl e
         | Inr content \<Rightarrow>
             (let emo = extract_emotion content;
                  emo = (if emo \<notin> set allowed then predicted else emo)
              in Inr (emo, parse_intensity do_intensity content)))"

section \<open>Adapter B: the encoder classifier (\<open>classifier.py\<close>)\<close>

datatype json =
    JNull
  | JBool bool
  | JInt int
  | JFloat rat
  | JNonFinite
  | JStr string
  | JList "json list"
  | JDict "(string \<times> json) list"

text \<open>
  What \<open>_BERT_SESSION.post\<close>, \<open>raise_for_status\<close> and \<open>resp.json()\<close> give for one call: the
  request raised (connection error, timeout, retries used up), the status was an error,
  the body was not JSON, or the decoded body.
\<close>

datatype bert_reply = RequestRaised | StatusError | NotJson | Body json

text \<open>The two parsers of the standard library that the adapter calls on strings.\<close>

record pylib =
  json_loads :: "string \<Rightarrow> json option"
  int_of_str :: "string \<Rightarrow> int option"

definition LABEL_MAP :: "(int \<times> string) list" where
  "LABEL_MAP =
     [(0, ''admiration''), (1, ''amusement''), (2, ''anger''), (3, ''annoyance''),
      (4, ''approval''), (5, ''caring''), (6, ''confusion''), (7, ''curiosity''),
      (8, ''desire''), (9, ''disappointment''), (10, ''disapproval''), (11, ''disgust''),
      (12, ''embarrassment''), (13, ''excitement''), (14, ''fear''), (15, ''gratitude''),
      (16, ''grief''), (17, ''joy''), (18, ''love''), (19, ''nervousness''),
      (20, ''optimism''), (21, ''pride''), (22, ''realization''), (23, ''relief''),
      (24, ''remorse''), (25, ''sadness''), (26, ''surprise''), (27, ''neutral'')]"

definition BASIC_MAP :: "(string \<times> string) list" where
  "BASIC_MAP =
     [(''admiration'', ''happy''), (''amusement'', ''happy''), (''anger'', ''mad''),
      (''annoyance'', ''mad''), (''approval'', ''happy''), (''caring'', ''happy''),
      (''confusion'', ''neutral''), (''curiosity'', ''neutral''), (''desire'', ''happy''),
      (''disappointment'', ''sad''), (''disapproval'', ''mad''), (''disgust'', ''disgust''),
      (''embarrassment'', ''sad''), (''excitement'', ''happy''), (''fear'', ''scared''),
      (''gratitude'', ''happy''), (''grief'', ''sad''), (''joy'', ''happy''),
      (''love'', ''happy''), (''nervousness'', ''scared''), (''optimism'', ''happy''),
      (''pride'', ''happy''), (''realization'', ''surprised''), (''relief'', ''happy''),
      (''remorse'', ''sad''), (''sadness'', ''sad''), (''surprise'', ''surprised''),
      (''neutral'', ''neutral'')]"

definition dict_get :: "('k \<times> 'v) list \<Rightarrow> 'k \<Rightarrow> 'v \<Rightarrow> 'v" where
  \<comment> \<open>\<open>d.get(k, default)\<close>\<close>
  "dict_get d k dflt = (case map_of d k of Some v \<Rightarrow> v | None \<Rightarrow> dflt)"

fun truthy :: "json \<Rightarrow> bool" where
  "truthy JNull = False"
| "truthy (JBool b) = b"
| "truthy (JInt i) = (i \<noteq> 0)"
| "truthy (JFloat r) = (r \<noteq> 0)"
| "truthy JNonFinite = True"
| "truthy (JStr s) = (s \<noteq> [])"
| "truthy (JList xs) = (xs \<noteq> [])"
| "truthy (JDict d) = (d \<noteq> [])"

fun py_int :: "pylib \<Rightarrow> json \<Rightarrow> py_error + int" where
  \<comment> \<open>the builtin \<open>int(x)\<close>\<close>
  "py_int L JNull = Inl TypeError"
| "py_int L (JBool b) = Inr (if b then 1 else 0)"
| "py_int L (JInt i) = Inr i"
| "py_int L (JFloat r) = Inr (if 0 \<le> r then \<lfloor>r\<rfloor> else \<lceil>r\<rceil>)"
| "py_int L JNonFinite = Inl OverflowError"
| "py_int L (JStr s) = (case int_of_str L s of None \<Rightarrow> Inl ValueError | Some i \<Rightarrow> Inr i)"
| "py_int L (JList xs) = Inl TypeError"
| "py_int L (JDict d) = Inl TypeError"

definition bert_label :: "int \<Rightarrow> bool \<Rightarrow> bool \<Rightarrow> string" where
  \<comment> \<open>the index-to-label table, then the collapse for the basic plan\<close>
  "bert_label idx classify_ext do_intensity =
     (let label = dict_get LABEL_MAP idx ''nan''
      in if \<not> classify_ext \<and> \<not> do_intensity
         then dict_get BASIC_MAP label ''neutral''
         else label)"

definition bert_index :: "pylib \<Rightarrow> bert_reply \<Rightarrow> py_error + int" where
  \<comment> \<open>the \<open>try\<close> block up to \<open>idx\<close>; the flags are not read before that point\<close>
  "bert_index L reply =
     (case reply of
        RequestRaised \<Rightarrow> Inl RequestException
      | StatusError \<Rightarrow> Inl HTTPError
      | NotJson \<Rightarrow> Inl JSONDecodeError
      | Body r0 \<Rightarrow>
          (case (case r0 of
                   JStr s \<Rightarrow> (case json_loads L s of
                                None \<Rightarrow> Inl JSONDecodeError
                              | Some j \<Rightarrow> Inr j)
                 | _ \<Rightarrow> Inr r0) of
             Inl e \<Rightarrow> Inl e
           | Inr (JDict d) \<Rightarrow>
               (let p1 = dict_get d ''predictions'' JNull;
                    preds = (if truthy p1 then p1 else dict_get d ''prediction'' JNull)
                in case preds of
                     JList (x # xs) \<Rightarrow> py_int L x
                   | _ \<Rightarrow> py_int L preds)
           | Inr _ \<Rightarrow> Inl AttributeError))"

definition predict_emotion_bert ::
  "pylib \<Rightarrow> bert_reply \<Rightarrow> string \<Rightarrow> bool \<Rightarrow> bool \<Rightarrow> py_error + (string \<times> score)" where
  \<comment> \<open>\<open>reply\<close>: what the scoring endpoint answers for \<open>sentence\<close>; every exception of the
      \<open>try\<close> block is caught by \<open>except Exception\<close>\<close>
  "predict_emotion_bert L reply sentence classify_ext do_intensity =
     (case bert_index L reply of
        Inl e \<Rightarrow> Inr (''nan'', None)
      | Inr idx \<Rightarrow> Inr (bert_label idx classify_ext do_intensity, None))"

definition no_parsers :: pylib where
  \<comment> \<open>for the examples in which no string is parsed\<close>
  "no_parsers = \<lparr>json_loads = (\<lambda>s. None), int_of_str = (\<lambda>s. None)\<rparr>"

section \<open>Plan policy (\<open>api/plan_gate.py\<close>)\<close>

datatype plan = Plan_basic | Plan_plus | Plan_pro

fun plan_value :: "plan \<Rightarrow> string" where
  "plan_value Plan_basic = ''basic''"
| "plan_value Plan_plus = ''plus''"
| "plan_value Plan_pro = ''pro''"

record rule =
  max_seconds :: int
  rule_model :: string
  rule_translate :: bool
  rule_classify :: bool
  rule_classify_ext :: bool
  rule_intensity :: bool

fun RULES :: "plan \<Rightarrow> rule" where
  "RULES Plan_basic =
     \<lparr>max_seconds = 10 * 60, rule_model = ''tiny'', rule_translate = True, rule_classify = True,
      rule_classify_ext = False, rule_intensity = False\<rparr>"
| "RULES Plan_plus =
     \<lparr>max_seconds = 45 * 60, rule_model = ''medium'', rule_translate = True, rule_classify = True,
      rule_classify_ext = True, rule_intensity = False\<rparr>"
| "RULES Plan_pro =
     \<lparr>max_seconds = 4 * 60 * 60, rule_model = ''turbo'', rule_translate = True, rule_classify = True,
      rule_classify_ext = True, rule_intensity = True\<rparr>"

text \<open>The values a request payload can hold, and the payload as a dictionary.\<close>

datatype pyval = VNone | VBool bool | VInt int | VFloat rat | VStr string

type_synonym payload = "string \<rightharpoonup> pyval"

fun gt_int :: "pyval \<Rightarrow> int \<Rightarrow> py_error + bool" where
  \<comment> \<open>\<open>v > n\<close> for an integer \<open>n\<close>\<close>
  "gt_int VNone n = Inl TypeError"
| "gt_int (VBool b) n = Inr ((if b then 1 else 0) > n)"
| "gt_int (VInt i) n = Inr (i > n)"
| "gt_int (VFloat r) n = Inr (r > of_int n)"
| "gt_int (VStr s) n = Inl TypeError"

function str_nat :: "nat \<Rightarrow> string" where
  \<comment> \<open>\<open>str(n)\<close> for a non-negative integer\<close>
  "str_nat n =
     (if n < 10 then [char_of (48 + n)]
      else str_nat (n div 10) @ [char_of (48 + n mod 10)])"
  by pat_completeness auto
termination
  by (relation "measure id") auto

definition str_int :: "int \<Rightarrow> string" where
  "str_int i = (if i < 0 then CHR ''-'' # str_nat (nat (- i)) else str_nat (nat i))"

definition quota_detail :: "plan \<Rightarrow> string" where
  \<comment> \<open>\<open>f"{plan.value.capitalize()} plan limited to {rule['max_seconds'] // 60}-minute audio"\<close>\<close>
  "quota_detail plan =
     capitalize (plan_value plan) @ '' plan limited to ''
       @ str_int (max_seconds (RULES plan) div 60) @ ''-minute audio''"

definition enforce :: "payload \<Rightarrow> plan \<Rightarrow> py_error + payload" where
  "enforce payload0 plan =
     (let rule = RULES plan;
          payload1 = payload0 |` (- {''translate'', ''classify'', ''classify_ext'', ''intensity''});
          classifier_choice = (case payload1 ''classifier'' of None \<Rightarrow> VStr ''llama'' | Some v \<Rightarrow> v);
          payload2 = payload1(''classifier'' := None);
          duration = (case payload2 ''duration_sec'' of None \<Rightarrow> VNone | Some v \<Rightarrow> v)
      in case (if duration \<noteq> VNone then gt_int duration (max_seconds rule) else Inr False) of
           Inl e \<Rightarrow> Inl e
         | Inr True \<Rightarrow> Inl (HTTPException 403 (quota_detail plan))
         | Inr False \<Rightarrow>
             (case payload2 ''src'' of
                None \<Rightarrow> Inl KeyError
              | Some src \<Rightarrow>
                  (case classifier_choice of
                     VStr c \<Rightarrow>
                       Inr ((payload2(''src'' := None))
                              (''inp'' \<mapsto> src,
                               ''model'' \<mapsto> VStr (rule_model rule),
                               ''do_translate'' \<mapsto> VBool (rule_translate rule),
                               ''do_classify'' \<mapsto> VBool (rule_classify rule),
                               ''do_classify_ext'' \<mapsto> VBool (rule_classify_ext rule),
                               ''do_intensity'' \<mapsto> VBool (rule_intensity rule),
                               ''classifier_model'' \<mapsto> VStr (lower c)))
                   | _ \<Rightarrow> Inl AttributeError)))"

definition exceeds :: "payload \<Rightarrow> int \<Rightarrow> bool" where
  \<comment> \<open>the payload carries a duration, a number strictly above the cap\<close>
  "exceeds payload0 cap =
     ((\<exists>i. payload0 ''duration_sec'' = Some (VInt i) \<and> cap < i)
      \<or> (\<exists>r. payload0 ''duration_sec'' = Some (VFloat r) \<and> of_int cap < r))"

section \<open>The pipeline (\<open>pipeline.py\<close>): helpers\<close>

subsection \<open>Paths (\<open>pathlib\<close>, POSIX flavour)\<close>

fun split_on :: "char \<Rightarrow> string \<Rightarrow> string list" where
  \<comment> \<open>\<open>s.split(sep)\<close> for a one-character separator\<close>
  "split_on sep [] = [[]]"
| "split_on sep (c # cs) =
     (if c = sep then [] # split_on sep cs
      else (case split_on sep cs of
              [] \<Rightarrow> [[c]]
            | p # ps \<Rightarrow> (c # p) # ps))"

definition path_name :: "string \<Rightarrow> string" where
  \<comment> \<open>\<open>Path(s).name\<close>: the last component, empty and \<open>.\<close> components dropped\<close>
  "path_name s =
     (let parts = filter (\<lambda>p. p \<noteq> [] \<and> p \<noteq> ''.'') (split_on CHR ''/'' s)
      in if parts = [] then [] else last parts)"

definition dot_cut :: "string \<Rightarrow> nat option" where
  \<comment> \<open>\<open>i = name.rfind('.')\<close> when \<open>0 < i < len(name) - 1\<close>\<close>
  "dot_cut name =
     (let k = length (dropWhile (\<lambda>c. c \<noteq> CHR ''.'') (rev name))
      in if 1 < k \<and> k < length name then Some (k - 1) else None)"

definition path_suffix :: "string \<Rightarrow> string" where
  "path_suffix s =
     (let name = path_name s
      in case dot_cut name of Some i \<Rightarrow> drop i name | None \<Rightarrow> [])"

definition path_stem :: "string \<Rightarrow> string" where
  "path_stem s =
     (let name = path_name s
      in case dot_cut name of Some i \<Rightarrow> take i name | None \<Rightarrow> name)"

subsection \<open>Input kinds\<close>

definition AUDIO_EXTS :: "string list" where
  "AUDIO_EXTS = [''.wav'', ''.mp3'', ''.m4a'', ''.flac'', ''.ogg'', ''.mp4'']"

definition TEXT_EXTS :: "string list" where
  "TEXT_EXTS = [''.txt'', ''.csv'']"

definition is_url :: "string \<Rightarrow> bool" where
  \<comment> \<open>\<open>src.startswith(("http://", "https://"))\<close>\<close>
  "is_url src = (startswith src ''http://'' \<or> startswith src ''https://'')"

definition is_audio :: "string \<Rightarrow> bool" where
  "is_audio src = (is_url src \<or> lower (path_suffix src) \<in> set AUDIO_EXTS)"

definition is_text :: "string \<Rightarrow> bool" where
  "is_text src = (lower (path_suffix src) \<in> set TEXT_EXTS)"

subsection \<open>The stem of the output file\<close>

text \<open>
  \<open>urlparse\<close> and \<open>parse_qs\<close> belong to the standard library; \<open>_make_safe_stem\<close> takes them
  as given. \<open>urlparse\<close> may raise \<open>ValueError\<close>; of its result the path and the query are
  used. \<open>parse_qs\<close> returns a dictionary from names to lists of values.
\<close>

record parse_result =
  url_path :: string
  url_query :: string

record urllib =
  urlparse :: "string \<Rightarrow> py_error + parse_result"
  parse_qs :: "string \<Rightarrow> (string \<times> string list) list"

definition is_safe_char :: "char \<Rightarrow> bool" where
  \<comment> \<open>the class \<open>[0-9A-Za-z_-]\<close>\<close>
  "is_safe_char c =
     (let n = (of_char c :: nat)
      in (48 \<le> n \<and> n \<le> 57) \<or> (65 \<le> n \<and> n \<le> 90) \<or> (97 \<le> n \<and> n \<le> 122)
         \<or> c = CHR ''_'' \<or> c = CHR ''-'')"

definition sanitize :: "string \<Rightarrow> string" where
  \<comment> \<open>\<open>re.sub(r"[^0-9A-Za-z_-]", "_", name) or "input"\<close>\<close>
  "sanitize name =
     (let s = map (\<lambda>c. if is_safe_char c then c else CHR ''_'') name
      in if s = [] then ''input'' else s)"

definition make_safe_stem :: "urllib \<Rightarrow> string \<Rightarrow> py_error + string" where
  "make_safe_stem U inp =
     (if is_url inp
      then (case urlparse U inp of
              Inl e \<Rightarrow> Inl e
            | Inr parsed \<Rightarrow>
                (case map_of (parse_qs U (url_query parsed)) ''v'' of
                   Some (v # vs) \<Rightarrow> Inr v
                 | _ \<Rightarrow> Inr (sanitize (path_stem (url_path parsed)))))
      else Inr (sanitize (path_stem inp)))"

text \<open>
  For the examples: the two library functions on a URL of the plain form
  \<open>scheme://host/path?name=value&name=value\<close>, with no fragment, parameters, escapes,
  blanks or empty values.
\<close>

definition plain_urlparse :: "string \<Rightarrow> py_error + parse_result" where
  "plain_urlparse u =
     (let rest = drop 2 (dropWhile (\<lambda>c. c \<noteq> CHR ''/'') u);
          after_host = dropWhile (\<lambda>c. c \<noteq> CHR ''/'' \<and> c \<noteq> CHR ''?'') rest
      in Inr \<lparr>url_path = takeWhile (\<lambda>c. c \<noteq> CHR ''?'') after_host,
              url_query = drop 1 (dropWhile (\<lambda>c. c \<noteq> CHR ''?'') after_host)\<rparr>)"

definition plain_parse_qs :: "string \<Rightarrow> (string \<times> string list) list" where
  "plain_parse_qs q =
     map (\<lambda>p. (takeWhile (\<lambda>c. c \<noteq> CHR ''='') p,
                [drop 1 (dropWhile (\<lambda>c. c \<noteq> CHR ''='') p)]))
       (filter (\<lambda>p. CHR ''='' \<in> set p) (split_on CHR ''&'' q))"

definition plain_urllib :: urllib where
  "plain_urllib = \<lparr>urlparse = plain_urlparse, parse_qs = plain_parse_qs\<rparr>"

subsection \<open>Timestamps and scores as text\<close>

definition round_half_even :: "rat \<Rightarrow> int" where
  "round_half_even r =
     (let f = \<lfloor>r\<rfloor>; d = r - of_int f
      in if d < 1/2 then f else if 1/2 < d then f + 1 else if even f then f else f + 1)"

definition zfill :: "nat \<Rightarrow> string \<Rightarrow> string" where
  "zfill n s = replicate (n - length s) CHR ''0'' @ s"

definition fmt :: "rat \<Rightarrow> py_error + string" where
  \<comment> \<open>\<open>_fmt\<close>: \<open>timedelta(seconds=ts)\<close> keeps whole microseconds; \<open>td.seconds\<close> is the part
      below one day\<close>
  "fmt ts =
     (let total_us = round_half_even (ts * 1000000);
          days = total_us div (86400 * 1000000);
          td_seconds = (total_us div 1000000) mod 86400;
          td_microseconds = total_us mod 1000000;
          h = td_seconds div 3600; rem = td_seconds mod 3600;
          m = rem div 60; s = rem mod 60;
          ms = td_microseconds div 1000
      in if days < - 999999999 \<or> 999999999 < days then Inl OverflowError
         else Inr (zfill 2 (str_int h) @ '':'' @ zfill 2 (str_int m) @ '':''
                   @ zfill 2 (str_int s) @ '','' @ zfill 3 (str_int ms)))"

definition fmt_2f :: "rat \<Rightarrow> string" where
  \<comment> \<open>\<open>f"{score:.2f}"\<close>\<close>
  "fmt_2f r =
     (let q = round_half_even (\<bar>r\<bar> * 100)
      in (if r < 0 then ''-'' else '''')
         @ str_int (q div 100) @ ''.'' @ zfill 2 (str_int (q mod 100)))"

text \<open>
  The thresholds of the intensity label are the float literals \<open>0.15\<close>, \<open>0.4\<close>, \<open>0.7\<close> and
  \<open>0.9\<close>: the doubles nearest to those decimals, each a 53-bit integer over a power of two.
\<close>

definition double_0_15 :: rat where
  "double_0_15 = 5404319552844595 / 2 ^ 55"

definition double_0_4 :: rat where
  "double_0_4 = 7205759403792794 / 2 ^ 54"

definition double_0_7 :: rat where
  "double_0_7 = 6305039478318694 / 2 ^ 53"

definition double_0_9 :: rat where
  "double_0_9 = 8106479329266893 / 2 ^ 53"

definition intensity_label :: "bool \<Rightarrow> score \<Rightarrow> string" where
  "intensity_label do_intensity score =
     (case score of
        None \<Rightarrow> ''''
      | Some s \<Rightarrow>
          (if do_intensity
           then (if s < double_0_15 then ''neutral''
                 else if s < double_0_4 then ''mild''
                 else if s < double_0_7 then ''moderate''
                 else if s < double_0_9 then ''strong''
                 else ''intense'')
           else ''''))"

subsection \<open>Lines and rows\<close>

definition is_linebreak :: "char \<Rightarrow> bool" where
  \<comment> \<open>the line boundaries of \<open>str.splitlines\<close> below code point 256\<close>
  "is_linebreak c = (of_char c \<in> {10, 11, 12, 13, 28, 29, 30, 133 :: nat})"

fun splitlines_from :: "string \<Rightarrow> string \<Rightarrow> string list" where
  \<comment> \<open>\<open>cur\<close>: the line read so far\<close>
  "splitlines_from cur [] = (if cur = [] then [] else [cur])"
| "splitlines_from cur [c] = (if is_linebreak c then [cur] else [cur @ [c]])"
| "splitlines_from cur (c # d # cs) =
     (if c = CHR 0x0D \<and> d = CHR 0x0A then cur # splitlines_from [] cs
      else if is_linebreak c then cur # splitlines_from [] (d # cs)
      else splitlines_from (cur @ [c]) (d # cs))"

definition splitlines :: "string \<Rightarrow> string list" where
  "splitlines s = splitlines_from [] s"

fun universal_newlines :: "string \<Rightarrow> string" where
  \<comment> \<open>text mode with the default \<open>newline=None\<close>: \<open>\r\n\<close> and \<open>\r\<close> are read as \<open>\n\<close>\<close>
  "universal_newlines [] = []"
| "universal_newlines [c] = (if c = CHR 0x0D then [CHR 0x0A] else [c])"
| "universal_newlines (c # d # cs) =
     (if c = CHR 0x0D \<and> d = CHR 0x0A then CHR 0x0A # universal_newlines cs
      else if c = CHR 0x0D then CHR 0x0A # universal_newlines (d # cs)
      else c # universal_newlines (d # cs))"

definition is_terminal :: "char \<Rightarrow> bool" where
  "is_terminal c = (c = CHR ''.'' \<or> c = CHR ''!'' \<or> c = CHR ''?'')"

definition ends_terminal :: "string \<Rightarrow> bool" where
  \<comment> \<open>\<open>re.search(r"[.!?]$", s)\<close>: \<open>$\<close> matches at the end and before a final newline\<close>
  "ends_terminal s =
     (case rev s of
        [] \<Rightarrow> False
      | c # r \<Rightarrow>
          is_terminal c \<or> (c = CHR 0x0A \<and> (case r of [] \<Rightarrow> False | d # r' \<Rightarrow> is_terminal d)))"

definition punctuate :: "string \<Rightarrow> string" where
  "punctuate s = (if ends_terminal s then s else s @ ''.'')"

definition csv_field :: "string \<Rightarrow> string" where
  \<comment> \<open>\<open>csv.writer\<close>, excel dialect, minimal quoting\<close>
  "csv_field f =
     (if \<exists>c \<in> set f. c = CHR '','' \<or> c = CHR 0x22 \<or> c = CHR 0x0D \<or> c = CHR 0x0A
      then [CHR 0x22] @ concat (map (\<lambda>c. if c = CHR 0x22 then [c, c] else [c]) f) @ [CHR 0x22]
      else f)"

fun join_comma :: "string list \<Rightarrow> string" where
  "join_comma [] = []"
| "join_comma [f] = f"
| "join_comma (f # g # fs) = f @ '','' @ join_comma (g # fs)"

definition csv_writerow :: "string list \<Rightarrow> string" where
  "csv_writerow row =
     (if row = [[]] then [CHR 0x22, CHR 0x22] else join_comma (map csv_field row))
     @ [CHR 0x0D, CHR 0x0A]"

section \<open>The pipeline (\<open>pipeline.py\<close>): \<open>predict_any\<close>\<close>

record segment =
  seg_start :: rat
  seg_end :: rat
  seg_text :: string

datatype adapter_call = CallLlama nat | CallBert nat

text \<open>
  The names that \<open>pipeline.py\<close> imports from its collaborators and from the standard
  library, and the configured history path. The two classifier adapters take, before
  their own arguments, the position of the segment they are called for: a remote service
  may answer the same text differently from one call to the next. The float operations
  are those of the machine; \<open>path_join dir name\<close> is \<open>str(Path(dir) / name)\<close>. Effects of
  the audio collaborators on the file system are not modelled.
\<close>

record deps =
  detect_lang :: "string \<Rightarrow> string"
  translate :: "string \<Rightarrow> string \<Rightarrow> py_error + string"
  adapter_llama :: "nat \<Rightarrow> string \<Rightarrow> bool \<Rightarrow> bool \<Rightarrow> py_error + (string \<times> score)"
  adapter_bert :: "nat \<Rightarrow> string \<Rightarrow> bool \<Rightarrow> bool \<Rightarrow> py_error + (string \<times> score)"
  normalise_source :: "string \<Rightarrow> py_error + string"
  trim_audio :: "string \<Rightarrow> rat \<Rightarrow> rat option \<Rightarrow> py_error + string"
  transcribe :: "string \<Rightarrow> py_error + (string \<times> segment list)"
  csv_reader :: "string \<Rightarrow> py_error + string list list"
  float_of_str :: "string \<Rightarrow> rat option"
  float_add :: "rat \<Rightarrow> rat \<Rightarrow> rat"
  float_mul :: "rat \<Rightarrow> rat \<Rightarrow> rat"
  urls :: urllib
  path_join :: "string \<Rightarrow> string \<Rightarrow> string"
  HISTORY_FILE :: string

text \<open>
  The world a request runs in: the process environment, the text files by path, the
  current UTC time as \<open>isoformat\<close> prints it, the log records, and the calls made to the
  remote classifiers so far. Of the log records only the first one of a run is modelled,
  the only place where \<open>classifier_model\<close> is read. When a run raises, the model does not
  describe the world it leaves behind.
\<close>

record world =
  environ :: "string \<rightharpoonup> string"
  files :: "string \<rightharpoonup> string"
  clock :: string
  log_records :: "string list"
  classifier_calls :: "adapter_call list"

record summary =
  timestamp :: string
  input :: string
  language :: string
  csv :: string

subsection \<open>Step 1: segments\<close>

definition parse_timestr :: "deps \<Rightarrow> string \<Rightarrow> py_error + rat" where
  "parse_timestr D ts_str =
     (case those (map (float_of_str D) (split_on CHR '':'' ts_str)) of
        None \<Rightarrow> Inl ValueError
      | Some parts \<Rightarrow>
          (case parts of
             [h, m, s] \<Rightarrow> Inr (float_add D (float_add D (float_mul D h 3600) (float_mul D m 60)) s)
           | [m, s] \<Rightarrow> Inr (float_add D (float_mul D m 60) s)
           | p # ps \<Rightarrow> Inr p
           | [] \<Rightarrow> Inl ValueError))"

definition given :: "string option \<Rightarrow> string option" where
  \<comment> \<open>truthiness of an optional string argument\<close>
  "given a = (case a of Some s \<Rightarrow> (if s = [] then None else Some s) | None \<Rightarrow> None)"

definition txt_sentences :: "string \<Rightarrow> string list" where
  \<comment> \<open>\<open>[s.strip() for s in raw.splitlines() if s.strip()]\<close>\<close>
  "txt_sentences raw = map strip (filter (\<lambda>s. strip s \<noteq> []) (splitlines raw))"

definition csv_sentences :: "string list list \<Rightarrow> string list" where
  \<comment> \<open>the header row skipped, then the first column of each row that has one\<close>
  "csv_sentences all_rows =
     map (\<lambda>row. strip (hd row)) (filter (\<lambda>row. row \<noteq> [] \<and> strip (hd row) \<noteq> []) (drop 1 all_rows))"

definition text_segments :: "string \<Rightarrow> string list \<Rightarrow> segment list" where
  \<comment> \<open>the fallback to the raw content, the final punctuation, the segments\<close>
  "text_segments raw sentences0 =
     (let sentences1 = (if sentences0 = [] \<and> raw \<noteq> [] then [raw] else sentences0);
          sentences2 = map punctuate sentences1
      in map (\<lambda>s. \<lparr>seg_start = 0, seg_end = 0, seg_text = s\<rparr>) sentences2)"

definition raw_text :: "string \<Rightarrow> string" where
  \<comment> \<open>\<open>path.read_text(encoding="utf-8").strip()\<close> on a file with the given content\<close>
  "raw_text content = strip (universal_newlines content)"

definition build_segments ::
  "deps \<Rightarrow> world \<Rightarrow> string \<Rightarrow> bool \<Rightarrow> string option \<Rightarrow> string option
     \<Rightarrow> py_error + (string \<times> segment list)" where
  "build_segments D w inp do_translate start_time end_time =
     (if is_text inp then
        (case files w inp of
           None \<Rightarrow> Inl FileNotFoundError
         | Some content \<Rightarrow>
             (let raw = raw_text content;
                  src_lang = detect_lang D raw
              in case (if lower (path_suffix inp) = ''.txt'' then Inr (txt_sentences raw)
                       else (case csv_reader D content of
                               Inl e \<Rightarrow> Inl e
                             | Inr all_rows \<Rightarrow> Inr (csv_sentences all_rows))) of
                   Inl e \<Rightarrow> Inl e
                 | Inr sentences \<Rightarrow> Inr (src_lang, text_segments raw sentences)))
      else if is_audio inp then
        (case normalise_source D inp of
           Inl e \<Rightarrow> Inl e
         | Inr src_file \<Rightarrow>
             (case (if given start_time \<noteq> None \<or> given end_time \<noteq> None then
                      (case (case given start_time of
                               Some s \<Rightarrow> parse_timestr D s
                             | None \<Rightarrow> Inr 0) of
                         Inl e \<Rightarrow> Inl e
                       | Inr st \<Rightarrow>
                           (case (case given end_time of
                                    Some s \<Rightarrow> map_sum id Some (parse_timestr D s)
                                  | None \<Rightarrow> Inr None) of
                              Inl e \<Rightarrow> Inl e
                            | Inr et \<Rightarrow>
                                (case trim_audio D src_file st et of
                                   Inl e \<Rightarrow> Inl e
                                 | Inr trimmed \<Rightarrow> Inr (trimmed, st))))
                    else Inr (src_file, 0)) of
                Inl e \<Rightarrow> Inl e
              | Inr (src_file', offset) \<Rightarrow>
                  (case transcribe D src_file' of
                     Inl e \<Rightarrow> Inl e
                   | Inr (src_lang, segs) \<Rightarrow>
                       Inr (src_lang,
                            map (\<lambda>seg. seg\<lparr>seg_start := float_add D (seg_start seg) offset,
                                         seg_end := float_add D (seg_end seg) offset\<rparr>) segs))))
      else
        (let src_lang = detect_lang D inp
         in case (if do_translate \<and> src_lang \<noteq> ''en'' then translate D inp src_lang
                  else Inr inp) of
              Inl e \<Rightarrow> Inl e
            | Inr text \<Rightarrow>
                Inr (if do_translate \<and> src_lang \<noteq> ''en'' then ''en'' else src_lang,
                     [\<lparr>seg_start = 0, seg_end = 0, seg_text = strip text\<rparr>])))"

subsection \<open>Step 3: the classification loop\<close>

record loop_state =
  use_bert :: bool
  rows :: "string list list"
  calls :: "adapter_call list"

definition classify ::
  "deps \<Rightarrow> nat \<Rightarrow> string \<Rightarrow> bool \<Rightarrow> bool \<Rightarrow> bool \<Rightarrow> bool
     \<Rightarrow> py_error + ((string \<times> score) \<times> bool \<times> adapter_call list)" where
  \<comment> \<open>the \<open>if do_classify:\<close> block for segment \<open>i\<close>: the result, the new \<open>use_bert\<close>, the
      calls made\<close>
  "classify D i translation do_classify do_classify_ext do_intensity use_bert0 =
     (if do_classify then
        (if \<not> do_classify_ext \<and> \<not> do_intensity then
           (case adapter_bert D i translation do_classify_ext do_intensity of
              Inl e \<Rightarrow> Inl e
            | Inr r \<Rightarrow> Inr (r, use_bert0, [CallBert i]))
         else if \<not> use_bert0 then
           (case adapter_llama D i translation do_classify_ext do_intensity of
              Inr r \<Rightarrow> Inr (r, use_bert0, [CallLlama i])
            | Inl e \<Rightarrow>
                (case adapter_bert D i translation do_classify_ext do_intensity of
                   Inl e' \<Rightarrow> Inl e'
                 | Inr r \<Rightarrow> Inr (r, True, [CallLlama i, CallBert i])))
         else
           (case adapter_bert D i translation do_classify_ext do_intensity of
              Inl e \<Rightarrow> Inl e
            | Inr r \<Rightarrow> Inr (r, use_bert0, [CallBert i])))
      else Inr ((''nan'', None), use_bert0, []))"

definition translation_of :: "deps \<Rightarrow> bool \<Rightarrow> string \<Rightarrow> string \<Rightarrow> py_error + string" where
  \<comment> \<open>\<open>translate(txt, src_lang) if do_translate and src_lang != "en" else txt\<close>\<close>
  "translation_of D do_translate src_lang txt =
     (if do_translate \<and> src_lang \<noteq> ''en'' then translate D txt src_lang else Inr txt)"

definition make_row :: "bool \<Rightarrow> string \<Rightarrow> string \<Rightarrow> string \<Rightarrow> string \<Rightarrow> string \<times> score \<Rightarrow> string list" where
  "make_row do_intensity st et txt translation r =
     [st, et, txt, translation, fst r]
     @ (if do_intensity
        then [case snd r of Some s \<Rightarrow> fmt_2f s | None \<Rightarrow> '''', intensity_label do_intensity (snd r)]
        else [])"

definition process_segment ::
  "deps \<Rightarrow> bool \<Rightarrow> bool \<Rightarrow> bool \<Rightarrow> bool \<Rightarrow> string \<Rightarrow> nat \<Rightarrow> segment \<Rightarrow> loop_state
     \<Rightarrow> py_error + loop_state" where
  "process_segment D do_translate do_classify do_classify_ext do_intensity src_lang i seg ls =
     (case fmt (seg_start seg) of
        Inl e \<Rightarrow> Inl e
      | Inr st \<Rightarrow>
     (case fmt (seg_end seg) of
        Inl e \<Rightarrow> Inl e
      | Inr et \<Rightarrow>
     (case translation_of D do_translate src_lang (seg_text seg) of
        Inl e \<Rightarrow> Inl e
      | Inr translation \<Rightarrow>
     (case classify D i translation do_classify do_classify_ext do_intensity (use_bert ls) of
        Inl e \<Rightarrow> Inl e
      | Inr (r, use_bert1, new_calls) \<Rightarrow>
          Inr (ls\<lparr>use_bert := use_bert1,
                  rows := rows ls @ [make_row do_intensity st et (seg_text seg) translation r],
                  calls := calls ls @ new_calls\<rparr>)))))"

fun classify_loop ::
  "deps \<Rightarrow> bool \<Rightarrow> bool \<Rightarrow> bool \<Rightarrow> bool \<Rightarrow> string \<Rightarrow> nat \<Rightarrow> segment list \<Rightarrow> loop_state
     \<Rightarrow> py_error + loop_state" where
  \<comment> \<open>\<open>for i, seg in enumerate(segments)\<close>, from position \<open>i\<close>\<close>
  "classify_loop D do_translate do_classify do_classify_ext do_intensity src_lang i [] ls = Inr ls"
| "classify_loop D do_translate do_classify do_classify_ext do_intensity src_lang i (seg # segs) ls =
     (case process_segment D do_translate do_classify do_classify_ext do_intensity src_lang i seg ls of
        Inl e \<Rightarrow> Inl e
      | Inr ls' \<Rightarrow>
          classify_loop D do_translate do_classify do_classify_ext do_intensity src_lang (Suc i) segs ls')"

subsection \<open>Steps 2 and 4: the artifact, the summary, the history\<close>

definition HISTORY_HEADERS :: "string list" where
  "HISTORY_HEADERS = [''timestamp'', ''input'', ''language'', ''translated'', ''emotion'', ''csv'']"

definition log_inference :: "deps \<Rightarrow> string \<Rightarrow> summary \<Rightarrow> world \<Rightarrow> world" where
  \<comment> \<open>\<open>history.py\<close>: append one row, after the header when the file is new or empty\<close>
  "log_inference D user_input s w =
     (let fp = HISTORY_FILE D;
          old = (case files w fp of None \<Rightarrow> [] | Some c \<Rightarrow> c);
          row = [timestamp s, user_input, language s, '''', '''', csv s]
      in w\<lparr>files := (files w)(fp \<mapsto>
              old @ (if old = [] then csv_writerow HISTORY_HEADERS else []) @ csv_writerow row)\<rparr>)"

definition started_message :: "string \<Rightarrow> string \<Rightarrow> string option \<Rightarrow> string" where
  "started_message inp model classifier_model =
     ''Pipeline started for input: '' @ [CHR 0x27] @ take 50 inp @ ''...'' @ [CHR 0x27]
       @ '', Model: '' @ model @ '', Classifier: ''
       @ (case classifier_model of None \<Rightarrow> ''None'' | Some c \<Rightarrow> c)"

definition table_headers :: "bool \<Rightarrow> string list" where
  "table_headers do_intensity =
     [''start'', ''end'', ''sentence'', ''translation'', ''emotion'']
     @ (if do_intensity then [''intensity_score'', ''intensity_label''] else [])"

definition initial_loop_state :: loop_state where
  "initial_loop_state = \<lparr>use_bert = False, rows = [], calls = []\<rparr>"

definition out_path :: "deps \<Rightarrow> world \<Rightarrow> string \<Rightarrow> string" where
  \<comment> \<open>\<open>Path(os.getenv("TRANSCRIPT_DIR", "data/transcripts")) / f"{stem}_emotion.csv"\<close>\<close>
  "out_path D w stem =
     path_join D (case environ w ''TRANSCRIPT_DIR'' of
                    None \<Rightarrow> ''data/transcripts''
                  | Some d \<Rightarrow> d)
       (stem @ ''_emotion.csv'')"

definition table_text :: "bool \<Rightarrow> string list list \<Rightarrow> string" where
  \<comment> \<open>what \<open>writer.writerow\<close> has written once the loop is over\<close>
  "table_text do_intensity rs = concat (map csv_writerow (table_headers do_intensity # rs))"

definition write_results ::
  "deps \<Rightarrow> world \<Rightarrow> string \<Rightarrow> bool \<Rightarrow> bool \<Rightarrow> string \<Rightarrow> string \<Rightarrow> loop_state
     \<Rightarrow> summary \<times> world" where
  \<comment> \<open>the file opened with mode \<open>w\<close> and written, the summary, the history\<close>
  "write_results D w1 inp do_intensity persist src_lang csv_path ls =
     (let w2 = w1\<lparr>files := (files w1)(csv_path \<mapsto> table_text do_intensity (rows ls)),
                  classifier_calls := classifier_calls w1 @ calls ls\<rparr>;
          s = \<lparr>timestamp = clock w2, input = inp, language = src_lang, csv = csv_path\<rparr>
      in (s, if persist then log_inference D inp s w2 else w2))"

definition predict_any ::
  "deps \<Rightarrow> world \<Rightarrow> string \<Rightarrow> string \<Rightarrow> bool \<Rightarrow> bool \<Rightarrow> bool \<Rightarrow> bool \<Rightarrow> string option
     \<Rightarrow> string option \<Rightarrow> string option \<Rightarrow> bool \<Rightarrow> py_error + (summary \<times> world)" where
  "predict_any D w0 inp model do_translate do_classify do_classify_ext do_intensity
       classifier_model start_time end_time persist =
     (let w1 = w0\<lparr>log_records := log_records w0 @ [started_message inp model classifier_model],
                  environ := (environ w0)(''WHISPER_MODEL'' \<mapsto> model)\<rparr>
      in case build_segments D w1 inp do_translate start_time end_time of
           Inl e \<Rightarrow> Inl e
         | Inr (src_lang, segments) \<Rightarrow>
             (case make_safe_stem (urls D) inp of
                Inl e \<Rightarrow> Inl e
              | Inr stem \<Rightarrow>
                  (case classify_loop D do_translate do_classify do_classify_ext do_intensity
                          src_lang 0 segments initial_loop_state of
                     Inl e \<Rightarrow> Inl e
                   | Inr ls \<Rightarrow>
                       Inr (write_results D w1 inp do_intensity persist src_lang
                              (out_path D w1 stem) ls))))"

subsection \<open>What the selection policy is stated with\<close>

definition llama_raises :: "deps \<Rightarrow> bool \<Rightarrow> bool \<Rightarrow> bool \<Rightarrow> string \<Rightarrow> nat \<Rightarrow> segment \<Rightarrow> bool" where
  \<comment> \<open>Adapter A raises when it is called for segment \<open>j\<close>\<close>
  "llama_raises D do_translate do_classify_ext do_intensity src_lang j seg =
     (case translation_of D do_translate src_lang (seg_text seg) of
        Inl e \<Rightarrow> False
      | Inr t \<Rightarrow>
          (case adapter_llama D j t do_classify_ext do_intensity of
             Inl e \<Rightarrow> True
           | Inr r \<Rightarrow> False))"

definition emotion_by ::
  "(nat \<Rightarrow> string \<Rightarrow> bool \<Rightarrow> bool \<Rightarrow> py_error + (string \<times> score)) \<Rightarrow> deps \<Rightarrow> bool \<Rightarrow> bool \<Rightarrow> bool
     \<Rightarrow> string \<Rightarrow> nat \<Rightarrow> segment \<Rightarrow> string option" where
  \<comment> \<open>the label that \<open>adapter\<close> returns for the translation of segment \<open>j\<close>\<close>
  "emotion_by adapter D do_translate do_classify_ext do_intensity src_lang j seg =
     (case translation_of D do_translate src_lang (seg_text seg) of
        Inl e \<Rightarrow> None
      | Inr t \<Rightarrow>
          (case adapter j t do_classify_ext do_intensity of
             Inl e \<Rightarrow> None
           | Inr r \<Rightarrow> Some (fst r)))"

definition emotions :: "string list list \<Rightarrow> string option list" where
  \<comment> \<open>the \<open>emotion\<close> column of the rows\<close>
  "emotions rs = map (\<lambda>row. Some (row ! 4)) rs"

definition sticky_calls :: "nat \<Rightarrow> nat \<Rightarrow> adapter_call list" where
  \<comment> \<open>Adapter A for segments \<open>0..k\<close>, Adapter B from segment \<open>k\<close> on, of \<open>n\<close> segments; Adapter A
      for all of them when \<open>k = n\<close>\<close>
  "sticky_calls k n =
     map CallLlama [0..<k] @ (if k < n then CallLlama k # map CallBert [k..<n] else [])"

subsection \<open>Stubbed collaborators for the scenarios\<close>

definition plain_csv_reader :: "string \<Rightarrow> py_error + string list list" where
  \<comment> \<open>\<open>csv.reader\<close> on content without quote characters: one row per line, an empty line
      gives an empty row\<close>
  "plain_csv_reader content =
     Inr (map (\<lambda>line. if line = [] then [] else split_on CHR '','' line) (splitlines content))"

definition stub_deps ::
  "(nat \<Rightarrow> string \<Rightarrow> bool \<Rightarrow> bool \<Rightarrow> py_error + (string \<times> score))
     \<Rightarrow> (nat \<Rightarrow> string \<Rightarrow> bool \<Rightarrow> bool \<Rightarrow> py_error + (string \<times> score)) \<Rightarrow> deps" where
  \<comment> \<open>language detection answers \<open>en\<close>, translation is the identity, the two adapters are
      the given stubs\<close>
  "stub_deps llama bert =
     \<lparr>detect_lang = (\<lambda>t. ''en''),
      translate = (\<lambda>t l. Inr t),
      adapter_llama = llama,
      adapter_bert = bert,
      normalise_source = (\<lambda>src. Inr src),
      trim_audio = (\<lambda>src st et. Inr src),
      transcribe = (\<lambda>src. Inr (''en'', [])),
      csv_reader = plain_csv_reader,
      float_of_str = (\<lambda>s. None),
      float_add = (\<lambda>a b. a + b),
      float_mul = (\<lambda>a b. a * b),
      urls = plain_urllib,
      path_join = (\<lambda>d n. d @ ''/'' @ n),
      HISTORY_FILE = ''history.csv''\<rparr>"

definition stub_world :: "string \<Rightarrow> string \<Rightarrow> string \<Rightarrow> world" where
  \<comment> \<open>one input file, output directory \<open>out\<close>, the clock at \<open>now\<close>\<close>
  "stub_world path content now =
     \<lparr>environ = [''TRANSCRIPT_DIR'' \<mapsto> ''out''],
      files = [path \<mapsto> content],
      clock = now,
      log_records = [],
      classifier_calls = []\<rparr>"

definition always :: "string \<Rightarrow> nat \<Rightarrow> string \<Rightarrow> bool \<Rightarrow> bool \<Rightarrow> py_error + (string \<times> score)" where
  \<comment> \<open>\<open>lambda t, ext, it: (label, None)\<close>\<close>
  "always label i t ext it = Inr (label, None)"

definition fails_at :: "nat \<Rightarrow> string \<Rightarrow> nat \<Rightarrow> string \<Rightarrow> bool \<Rightarrow> bool \<Rightarrow> py_error + (string \<times> score)" where
  \<comment> \<open>an adapter that raises at its call for segment \<open>n\<close> and answers \<open>label\<close> otherwise\<close>
  "fails_at n label i t ext it = (if i = n then Inl RuntimeError else Inr (label, None))"

section \<open>Properties of the classifier adapters\<close>

lemma neutral_in_tier: "''neutral'' \<in> set (EMOTION_TIERS t)"
  by (cases t) (simp_all add: BASIC_LABELS_def PLUS_LABELS_def PRO_LABELS_def)

lemma llama_label_cases:
  assumes "call_llama replies = Inr content"
  shows "predict_emotion_llama replies sentence ext ity =
           Inr (if extract_emotion content \<in> set (EMOTION_TIERS (tier_of ext ity))
                then extract_emotion content else ''neutral'',
                parse_intensity ity content)"
  using assms by (simp add: predict_emotion_llama_def Let_def)

lemma review_label_cases:
  assumes "call_llama replies = Inr content"
  shows "review_emotion_llama replies sentence predicted actual ext ity =
           Inr (if extract_emotion content \<in> set (EMOTION_TIERS (tier_of ext ity))
                then extract_emotion content else predicted,
                parse_intensity ity content)"
  using assms by (simp add: review_emotion_llama_def Let_def)

lemma llama_label_member:
  assumes "predict_emotion_llama replies sentence ext ity = Inr (emo, sc)"
  shows "emo \<in> set (EMOTION_TIERS (tier_of ext ity))"
proof (cases "call_llama replies")
  case (Inl e)
  with assms show ?thesis by (simp add: predict_emotion_llama_def)
next
  case (Inr content)
  from llama_label_cases[OF Inr, of sentence ext ity] assms
  show ?thesis by (auto simp: neutral_in_tier split: if_splits)
qed

lemma review_label_member:
  assumes "review_emotion_llama replies sentence predicted actual ext ity = Inr (emo, sc)"
  shows "emo \<in> set (EMOTION_TIERS (tier_of ext ity)) \<or> emo = predicted"
proof (cases "call_llama replies")
  case (Inl e)
  with assms show ?thesis by (simp add: review_emotion_llama_def)
next
  case (Inr content)
  from review_label_cases[OF Inr, of sentence predicted actual ext ity] assms
  show ?thesis by (auto split: if_splits)
qed

lemma call_llama_raises_iff:
  "(\<exists>e. call_llama rs = Inl e) \<longleftrightarrow> (\<forall>r \<in> set rs. r = None)"
  by (induction rs rule: call_llama.induct) auto

lemma llama_raises_iff:
  "(\<exists>e. predict_emotion_llama replies sentence ext ity = Inl e) \<longleftrightarrow>
     (\<forall>r \<in> set replies. r = None)"
proof -
  have "(\<exists>e. predict_emotion_llama replies sentence ext ity = Inl e) \<longleftrightarrow>
          (\<exists>e. call_llama replies = Inl e)"
    by (cases "call_llama replies") (simp_all add: predict_emotion_llama_def Let_def)
  then show ?thesis by (simp add: call_llama_raises_iff)
qed

lemma dict_get_range: "dict_get d k dflt \<in> insert dflt (snd ` set d)"
  by (auto simp: dict_get_def split: option.splits dest: map_of_SomeD intro: rev_image_eqI)

lemma basic_known:
  "\<forall>idx \<in> set (map fst LABEL_MAP). idx \<noteq> 11 \<longrightarrow> bert_label idx False False \<in> set BASIC_LABELS"
  by code_simp

lemma nan_collapse: "dict_get BASIC_MAP ''nan'' ''neutral'' = ''neutral''"
  by code_simp

lemma basic_collapse:
  assumes "idx \<noteq> 11"
  shows "bert_label idx False False \<in> set BASIC_LABELS"
proof (cases "idx \<in> set (map fst LABEL_MAP)")
  case True
  with assms basic_known show ?thesis by blast
next
  case False
  then have "map_of LABEL_MAP idx = None"
    by (simp add: map_of_eq_None_iff)
  then have "bert_label idx False False = dict_get BASIC_MAP ''nan'' ''neutral''"
    by (simp add: bert_label_def dict_get_def)
  then show ?thesis
    using nan_collapse neutral_in_tier[of Basic] by simp
qed

lemma basic_collapse_disgust:
  "bert_label 11 False False = ''disgust'' \<and> ''disgust'' \<notin> set BASIC_LABELS
   \<and> ''disgusted'' \<in> set BASIC_LABELS"
  by code_simp

lemma ext_label:
  assumes "ext \<or> ity"
  shows "bert_label idx ext ity \<in> insert ''nan'' (snd ` set LABEL_MAP)"
proof -
  have "bert_label idx ext ity = dict_get LABEL_MAP idx ''nan''"
    using assms by (auto simp: bert_label_def)
  then show ?thesis
    using dict_get_range[of LABEL_MAP idx "''nan''"] by simp
qed

lemma bert_returns:
  "predict_emotion_bert L reply sentence ext ity =
     Inr (case bert_index L reply of Inl e \<Rightarrow> ''nan'' | Inr idx \<Rightarrow> bert_label idx ext ity, None)"
  by (simp add: predict_emotion_bert_def split: sum.splits)

subsection \<open>Adapter A stays inside the tier vocabulary\<close>

text \<open>
  C4. For every backend reply, \<open>predict_emotion_llama\<close> returns the parsed label when it
  is in \<open>EMOTION_TIERS[tier]\<close> and \<open>neutral\<close> otherwise, so its label is always a member of
  the tier vocabulary; \<open>review_emotion_llama\<close> returns the parsed label when it is in
  \<open>EMOTION_TIERS[tier]\<close> and the prior predicted label otherwise.
\<close>

theorem adapter_a_label_in_vocabulary:
  assumes "call_llama replies = Inr content"
  shows
    "(\<exists>sc. predict_emotion_llama replies sentence ext ity =
        Inr (if extract_emotion content \<in> set (EMOTION_TIERS (tier_of ext ity))
             then extract_emotion content else ''neutral'', sc))
     \<and> (\<exists>sc. review_emotion_llama replies sentence predicted actual ext ity =
        Inr (if extract_emotion content \<in> set (EMOTION_TIERS (tier_of ext ity))
             then extract_emotion content else predicted, sc))
     \<and> (\<forall>emo sc. predict_emotion_llama replies sentence ext ity = Inr (emo, sc)
           \<longrightarrow> emo \<in> set (EMOTION_TIERS (tier_of ext ity)))
     \<and> (\<forall>emo sc. review_emotion_llama replies sentence predicted actual ext ity = Inr (emo, sc)
           \<longrightarrow> emo \<in> set (EMOTION_TIERS (tier_of ext ity)) \<or> emo = predicted)"
proof (intro conjI allI impI)
  show "\<exists>sc. predict_emotion_llama replies sentence ext ity =
        Inr (if extract_emotion content \<in> set (EMOTION_TIERS (tier_of ext ity))
             then extract_emotion content else ''neutral'', sc)"
    by (rule exI) (rule llama_label_cases[OF assms])
  show "\<exists>sc. review_emotion_llama replies sentence predicted actual ext ity =
        Inr (if extract_emotion content \<in> set (EMOTION_TIERS (tier_of ext ity))
             then extract_emotion content else predicted, sc)"
    by (rule exI) (rule review_label_cases[OF assms])
next
  fix emo sc
  assume "predict_emotion_llama replies sentence ext ity = Inr (emo, sc)"
  then show "emo \<in> set (EMOTION_TIERS (tier_of ext ity))"
    by (rule llama_label_member)
next
  fix emo sc
  assume "review_emotion_llama replies sentence predicted actual ext ity = Inr (emo, sc)"
  then show "emo \<in> set (EMOTION_TIERS (tier_of ext ity)) \<or> emo = predicted"
    by (rule review_label_member)
qed

theorem adapter_a_label_in_vocabulary_witness:
  "call_llama [None, Some ''Reasoning: glad. Answer: Joy''] = Inr ''Reasoning: glad. Answer: Joy''
   \<and> (\<exists>sc. predict_emotion_llama [None, Some ''Reasoning: glad. Answer: Joy'']
              ''I am glad'' True False = Inr (''joy'', sc))
   \<and> (\<exists>sc. review_emotion_llama [None, Some ''Reasoning: glad. Answer: Joy'']
              ''I am glad'' ''happy'' ''sad'' False False = Inr (''happy'', sc))"
proof -
  have h: "call_llama [None, Some ''Reasoning: glad. Answer: Joy''] =
             Inr ''Reasoning: glad. Answer: Joy''"
    by simp
  have e: "extract_emotion ''Reasoning: glad. Answer: Joy'' = ''joy''"
    by code_simp
  have m1: "''joy'' \<in> set (EMOTION_TIERS (tier_of True False))"
    by code_simp
  have m2: "''joy'' \<notin> set (EMOTION_TIERS (tier_of False False))"
    by code_simp
  from adapter_a_label_in_vocabulary[OF h, where sentence = "''I am glad''" and ext = True
      and ity = False]
  have p: "\<exists>sc. predict_emotion_llama [None, Some ''Reasoning: glad. Answer: Joy'']
              ''I am glad'' True False = Inr (''joy'', sc)"
    unfolding e using m1 by simp
  from adapter_a_label_in_vocabulary[OF h, where sentence = "''I am glad''" and ext = False
      and ity = False and predicted = "''happy''" and actual = "''sad''"]
  have r: "\<exists>sc. review_emotion_llama [None, Some ''Reasoning: glad. Answer: Joy'']
              ''I am glad'' ''happy'' ''sad'' False False = Inr (''happy'', sc)"
    unfolding e using m2 by simp
  from h p r show ?thesis by blast
qed

subsection \<open>Adapter B never raises\<close>

text \<open>
  C5. \<open>predict_emotion_bert\<close> never raises: for every sentence, flag combination and
  reply of the endpoint it returns a pair whose intensity component is \<open>None\<close>, and
  whenever the remote call or the parsing of the response fails the result is exactly
  \<open>('nan', None)\<close>.
\<close>

theorem predict_emotion_bert_never_raises:
  "(\<exists>label. predict_emotion_bert L reply sentence ext ity = Inr (label, None))
   \<and> predict_emotion_bert L RequestRaised sentence ext ity = Inr (''nan'', None)
   \<and> predict_emotion_bert L StatusError sentence ext ity = Inr (''nan'', None)
   \<and> predict_emotion_bert L NotJson sentence ext ity = Inr (''nan'', None)
   \<and> (\<forall>e. bert_index L reply = Inl e
         \<longrightarrow> predict_emotion_bert L reply sentence ext ity = Inr (''nan'', None))"
  by (simp add: bert_returns) (simp add: bert_index_def)

theorem predict_emotion_bert_never_raises_witness:
  "bert_index no_parsers (Body (JDict [(''predictions'', JStr ''seven'')])) = Inl ValueError
   \<and> predict_emotion_bert no_parsers (Body (JDict [(''predictions'', JStr ''seven'')]))
        ''Hi'' True True = Inr (''nan'', None)"
proof -
  have h: "bert_index no_parsers (Body (JDict [(''predictions'', JStr ''seven'')])) =
             Inl ValueError"
    by (simp add: bert_index_def dict_get_def no_parsers_def)
  from predict_emotion_bert_never_raises[of no_parsers
      "Body (JDict [(''predictions'', JStr ''seven'')])" "''Hi''" True True] h
  show ?thesis by blast
qed

subsection \<open>Which labels the two adapters return\<close>

text \<open>
  C1, as stated: every label returned by a classifier call belongs to the vocabulary of
  the request's tier or is the fallback (\<open>neutral\<close> for a first-pass call). Adapter B
  does not filter by tier: with extended labels requested, class 16 of the endpoint
  comes back as \<open>grief\<close>, which is not in the Plus vocabulary and is not \<open>neutral\<close>.
\<close>

theorem classifier_label_counterexample:
  "predict_emotion_bert no_parsers (Body (JDict [(''predictions'', JList [JInt 16])]))
      ''I miss her'' True False = Inr (''grief'', None)
   \<and> ''grief'' \<notin> set (EMOTION_TIERS (tier_of True False))
   \<and> ''grief'' \<noteq> ''neutral''"
  by code_simp

text \<open>
  C1, amended. A label returned by Adapter A belongs to the vocabulary of the
  request's tier (first pass) or is the prior predicted label (review). Adapter B returns
  the sentinel \<open>nan\<close> when the call or the parsing fails; when it succeeds with class index
  \<open>idx\<close> it returns the label computed from the 28-class table: with extended labels or
  intensity requested that is an entry of the table or \<open>nan\<close>, and on the basic tier, for
  every class index other than 11, it is a member of the basic vocabulary.
\<close>

theorem classifier_labels_by_design:
  "(\<forall>emo sc. predict_emotion_llama replies sentence ext ity = Inr (emo, sc)
       \<longrightarrow> emo \<in> set (EMOTION_TIERS (tier_of ext ity)))
   \<and> (\<forall>emo sc. review_emotion_llama replies sentence predicted actual ext ity = Inr (emo, sc)
       \<longrightarrow> emo \<in> set (EMOTION_TIERS (tier_of ext ity)) \<or> emo = predicted)
   \<and> (\<forall>e. bert_index L reply = Inl e
       \<longrightarrow> predict_emotion_bert L reply sentence ext ity = Inr (''nan'', None))
   \<and> (\<forall>idx. bert_index L reply = Inr idx
       \<longrightarrow> predict_emotion_bert L reply sentence ext ity = Inr (bert_label idx ext ity, None)
           \<and> (ext \<or> ity \<longrightarrow> bert_label idx ext ity \<in> insert ''nan'' (snd ` set LABEL_MAP))
           \<and> (\<not> ext \<and> \<not> ity \<and> idx \<noteq> 11
                \<longrightarrow> bert_label idx ext ity \<in> set (EMOTION_TIERS (tier_of ext ity))))"
proof (intro conjI allI impI)
  fix emo sc
  assume "predict_emotion_llama replies sentence ext ity = Inr (emo, sc)"
  then show "emo \<in> set (EMOTION_TIERS (tier_of ext ity))"
    by (rule llama_label_member)
next
  fix emo sc
  assume "review_emotion_llama replies sentence predicted actual ext ity = Inr (emo, sc)"
  then show "emo \<in> set (EMOTION_TIERS (tier_of ext ity)) \<or> emo = predicted"
    by (rule review_label_member)
next
  fix e
  assume "bert_index L reply = Inl e"
  then show "predict_emotion_bert L reply sentence ext ity = Inr (''nan'', None)"
    by (simp add: predict_emotion_bert_def)
next
  fix idx :: int
  assume "bert_index L reply = Inr idx"
  then show "predict_emotion_bert L reply sentence ext ity = Inr (bert_label idx ext ity, None)"
    by (simp add: predict_emotion_bert_def)
next
  fix idx :: int
  assume "ext \<or> ity"
  then show "bert_label idx ext ity \<in> insert ''nan'' (snd ` set LABEL_MAP)"
    by (rule ext_label)
next
  fix idx :: int
  assume "\<not> ext \<and> \<not> ity \<and> idx \<noteq> 11"
  then show "bert_label idx ext ity \<in> set (EMOTION_TIERS (tier_of ext ity))"
    using basic_collapse[of idx] by (simp add: tier_of_def)
qed

theorem classifier_labels_by_design_witness:
  "predict_emotion_llama [Some ''Answer: bliss''] ''What a day'' False False
      = Inr (''neutral'', None)
   \<and> ''neutral'' \<in> set (EMOTION_TIERS (tier_of False False))
   \<and> review_emotion_llama [Some ''Answer: bliss''] ''What a day'' ''glad'' ''happy'' False False
      = Inr (''glad'', None)
   \<and> bert_index no_parsers (Body (JList [])) = Inl AttributeError
   \<and> predict_emotion_bert no_parsers (Body (JList [])) ''What a day'' False False
      = Inr (''nan'', None)
   \<and> bert_index no_parsers (Body (JDict [(''predictions'', JList [JInt 17])])) = Inr 17
   \<and> predict_emotion_bert no_parsers (Body (JDict [(''predictions'', JList [JInt 17])]))
        ''What a day'' False False = Inr (''happy'', None)
   \<and> ''happy'' \<in> set (EMOTION_TIERS (tier_of False False))"
proof -
  have a: "predict_emotion_llama [Some ''Answer: bliss''] ''What a day'' False False
             = Inr (''neutral'', None)"
    by code_simp
  have r: "review_emotion_llama [Some ''Answer: bliss''] ''What a day'' ''glad'' ''happy''
             False False = Inr (''glad'', None)"
    by code_simp
  have f: "bert_index no_parsers (Body (JList [])) = Inl AttributeError"
    by (simp add: bert_index_def)
  have i: "bert_index no_parsers (Body (JDict [(''predictions'', JList [JInt 17])])) = Inr 17"
    by (simp add: bert_index_def dict_get_def)
  have l: "bert_label 17 False False = ''happy''"
    by code_simp
  note t1 = classifier_labels_by_design[where replies = "[Some ''Answer: bliss'']"
      and sentence = "''What a day''" and ext = False and ity = False and predicted = "''glad''"
      and actual = "''happy''" and L = no_parsers and reply = "Body (JList [])"]
  note t2 = classifier_labels_by_design[where replies = "[Some ''Answer: bliss'']"
      and sentence = "''What a day''" and ext = False and ity = False and predicted = "''glad''"
      and actual = "''happy''" and L = no_parsers
      and reply = "Body (JDict [(''predictions'', JList [JInt 17])])"]
  from t1 a have m: "''neutral'' \<in> set (EMOTION_TIERS (tier_of False False))"
    by blast
  from t1 f have n: "predict_emotion_bert no_parsers (Body (JList [])) ''What a day'' False False
      = Inr (''nan'', None)"
    by blast
  from t2 i have p: "predict_emotion_bert no_parsers
      (Body (JDict [(''predictions'', JList [JInt 17])])) ''What a day'' False False
        = Inr (bert_label 17 False False, None)"
    and q: "bert_label 17 False False \<in> set (EMOTION_TIERS (tier_of False False))"
    by simp_all
  from a m r f n i p q show ?thesis
    unfolding l by simp
qed

section \<open>Properties of the plan policy\<close>

lemma max_seconds_table:
  "max_seconds (RULES Plan_basic) = 600"
  "max_seconds (RULES Plan_plus) = 2700"
  "max_seconds (RULES Plan_pro) = 14400"
  by simp_all

lemma max_seconds_ge: "600 \<le> max_seconds (RULES plan)"
  by (cases plan) simp_all

lemma enforce_duration_kept:
  "((payload0 |` (- {''translate'', ''classify'', ''classify_ext'', ''intensity''}))
      (''classifier'' := None)) ''duration_sec'' = payload0 ''duration_sec''"
  by (simp add: restrict_map_def)

lemma enforce_raises_quota_iff:
  "(\<exists>code d. enforce payload0 plan = Inl (HTTPException code d)) \<longleftrightarrow>
     exceeds payload0 (max_seconds (RULES plan))"
proof (cases "payload0 ''duration_sec''")
  case None
  then show ?thesis
    by (auto simp: enforce_def exceeds_def Let_def enforce_duration_kept
        split: option.splits pyval.splits bool.splits)
next
  case (Some v)
  then show ?thesis
    using max_seconds_ge[of plan]
    by (cases v)
      (auto simp: enforce_def exceeds_def Let_def enforce_duration_kept
        split: option.splits pyval.splits bool.splits)
qed

lemma enforce_quota_error:
  assumes "exceeds payload0 (max_seconds (RULES plan))"
  shows "enforce payload0 plan = Inl (HTTPException 403 (quota_detail plan))"
  using assms
  by (auto simp: enforce_def exceeds_def Let_def enforce_duration_kept split: bool.splits)

lemma quota_detail_basic: "quota_detail Plan_basic = ''Basic plan limited to 10-minute audio''"
  by code_simp

text \<open>
  C3. For every plan and every request payload, \<open>enforce\<close> raises the quota error (an
  \<open>HTTPException\<close>, status 403) if and only if the payload carries a duration that
  strictly exceeds the plan's \<open>max_seconds\<close> (basic 600, plus 2700, pro 14400): a duration
  equal to the cap is allowed, the cap plus one is rejected, and for duration 601 on the
  basic plan the message is \<open>Basic plan limited to 10-minute audio\<close>.
\<close>

theorem enforce_rejects_exactly_over_cap:
  "max_seconds (RULES Plan_basic) = 600
   \<and> max_seconds (RULES Plan_plus) = 2700
   \<and> max_seconds (RULES Plan_pro) = 14400
   \<and> ((\<exists>code d. enforce payload0 plan = Inl (HTTPException code d))
        \<longleftrightarrow> exceeds payload0 (max_seconds (RULES plan)))
   \<and> (exceeds payload0 (max_seconds (RULES plan))
        \<longrightarrow> enforce payload0 plan = Inl (HTTPException 403 (quota_detail plan)))
   \<and> (\<forall>code d. enforce (payload0(''duration_sec'' \<mapsto> VInt (max_seconds (RULES plan)))) plan
          \<noteq> Inl (HTTPException code d))
   \<and> enforce (payload0(''duration_sec'' \<mapsto> VInt (max_seconds (RULES plan) + 1))) plan
        = Inl (HTTPException 403 (quota_detail plan))
   \<and> enforce (payload0(''duration_sec'' \<mapsto> VInt 601)) Plan_basic
        = Inl (HTTPException 403 ''Basic plan limited to 10-minute audio'')"
proof -
  have at_cap: "\<not> exceeds (payload0(''duration_sec'' \<mapsto> VInt (max_seconds (RULES plan))))
                    (max_seconds (RULES plan))"
    by (simp add: exceeds_def)
  have over_cap: "exceeds (payload0(''duration_sec'' \<mapsto> VInt (max_seconds (RULES plan) + 1)))
                    (max_seconds (RULES plan))"
    by (simp add: exceeds_def)
  have basic_601: "exceeds (payload0(''duration_sec'' \<mapsto> VInt 601))
                    (max_seconds (RULES Plan_basic))"
    by (simp add: exceeds_def)
  show ?thesis
    using at_cap enforce_quota_error[OF over_cap] enforce_quota_error[OF basic_601]
      enforce_raises_quota_iff[of payload0 plan]
      enforce_raises_quota_iff[of "payload0(''duration_sec'' \<mapsto> VInt (max_seconds (RULES plan)))" plan]
      enforce_quota_error[of payload0 plan]
    by (simp add: quota_detail_basic)
qed

theorem enforce_rejects_exactly_over_cap_witness:
  "exceeds [''src'' \<mapsto> VStr ''talk.mp3'', ''duration_sec'' \<mapsto> VInt 601]
      (max_seconds (RULES Plan_basic))
   \<and> enforce [''src'' \<mapsto> VStr ''talk.mp3'', ''duration_sec'' \<mapsto> VInt 601] Plan_basic
        = Inl (HTTPException 403 ''Basic plan limited to 10-minute audio'')
   \<and> \<not> exceeds [''src'' \<mapsto> VStr ''talk.mp3'', ''duration_sec'' \<mapsto> VInt 600]
      (max_seconds (RULES Plan_basic))
   \<and> (\<forall>code d. enforce [''src'' \<mapsto> VStr ''talk.mp3'', ''duration_sec'' \<mapsto> VInt 600] Plan_basic
          \<noteq> Inl (HTTPException code d))"
proof -
  have h1: "exceeds [''src'' \<mapsto> VStr ''talk.mp3'', ''duration_sec'' \<mapsto> VInt 601]
              (max_seconds (RULES Plan_basic))"
    by (simp add: exceeds_def)
  have h2: "\<not> exceeds [''src'' \<mapsto> VStr ''talk.mp3'', ''duration_sec'' \<mapsto> VInt 600]
              (max_seconds (RULES Plan_basic))"
    by (simp add: exceeds_def)
  note t1 = enforce_rejects_exactly_over_cap[of
      "[''src'' \<mapsto> VStr ''talk.mp3'', ''duration_sec'' \<mapsto> VInt 601]" Plan_basic]
  note t2 = enforce_rejects_exactly_over_cap[of
      "[''src'' \<mapsto> VStr ''talk.mp3'', ''duration_sec'' \<mapsto> VInt 600]" Plan_basic]
  from t1 h1 have a: "enforce [''src'' \<mapsto> VStr ''talk.mp3'', ''duration_sec'' \<mapsto> VInt 601]
      Plan_basic = Inl (HTTPException 403 (quota_detail Plan_basic))"
    by blast
  from t2 h2 have b: "\<forall>code d. enforce [''src'' \<mapsto> VStr ''talk.mp3'',
      ''duration_sec'' \<mapsto> VInt 600] Plan_basic \<noteq> Inl (HTTPException code d)"
    by blast
  from h1 a h2 b show ?thesis
    by (simp add: quota_detail_basic)
qed

section \<open>Properties of the pipeline helpers\<close>

subsection \<open>The stem of the output file\<close>

lemma sanitize_safe: "list_all is_safe_char (sanitize name) \<and> sanitize name \<noteq> []"
proof -
  have "is_safe_char CHR ''_''"
    by (simp add: is_safe_char_def)
  then have "list_all is_safe_char (map (\<lambda>c. if is_safe_char c then c else CHR ''_'') name)"
    by (induction name) simp_all
  moreover have "list_all is_safe_char ''input''"
    by code_simp
  ultimately show ?thesis
    by (simp add: sanitize_def Let_def)
qed

lemma make_safe_stem_path:
  assumes "\<not> is_url inp"
  shows "make_safe_stem U inp = Inr (sanitize (path_stem inp))"
  using assms by (simp add: make_safe_stem_def)

lemma make_safe_stem_video_id:
  assumes "is_url inp" and "urlparse U inp = Inr parsed"
    and "map_of (parse_qs U (url_query parsed)) ''v'' = Some (v # vs)"
  shows "make_safe_stem U inp = Inr v"
  using assms by (simp add: make_safe_stem_def)

text \<open>
  C7. The stem used to name the output artifact is the URL's \<open>v\<close> query parameter, else the
  path stem, else \<open>input\<close>, and in every case contains no character outside
  \<open>[0-9A-Za-z_-]\<close>. The code returns the \<open>v\<close> parameter before the substitution is applied:
  for the URL below the stem is \<open>../x\<close>, which holds characters outside the class.
\<close>

theorem make_safe_stem_returns_raw_video_id:
  "make_safe_stem plain_urllib ''https://youtube.com/watch?v=../x'' = Inr ''../x''
   \<and> \<not> list_all is_safe_char ''../x''"
  by code_simp

subsection \<open>The intensity label\<close>

lemma double_literals:
  "\<bar>double_0_15 - 15/100\<bar> < 1 / 2 ^ 56" "double_0_15 < 15/100"
  "\<bar>double_0_4 - 4/10\<bar> < 1 / 2 ^ 55" "4/10 < double_0_4"
  "\<bar>double_0_7 - 7/10\<bar> < 1 / 2 ^ 54" "double_0_7 < 7/10"
  "\<bar>double_0_9 - 9/10\<bar> < 1 / 2 ^ 54" "9/10 < double_0_9"
  by (simp_all add: double_0_15_def double_0_4_def double_0_7_def double_0_9_def)

lemma intensity_label_table:
  "intensity_label True (Some 0) = ''neutral''"
  "intensity_label True (Some (1/4)) = ''mild''"
  "intensity_label True (Some (1/2)) = ''moderate''"
  "intensity_label True (Some (3/4)) = ''strong''"
  "intensity_label True (Some 1) = ''intense''"
  by (simp_all add: intensity_label_def double_0_15_def double_0_4_def double_0_7_def
      double_0_9_def)

lemma parse_intensity_values:
  assumes "parse_intensity do_intensity content = Some s"
  shows "s \<in> {0, 1/4, 1/2, 3/4, 1}"
proof -
  have "v \<in> {0, 1/4, 1/2, 3/4, 1}" if "map_of intensity_mapping k = Some v" for k v
    using map_of_SomeD[OF that] by (auto simp: intensity_mapping_def)
  with assms show ?thesis
    by (auto simp: parse_intensity_def split: if_splits option.splits)
qed

lemma produced_score_label:
  assumes "s \<in> {0, 1/4, 1/2, 3/4, 1 :: rat}"
  shows "(s < 15/100 \<longrightarrow> intensity_label True (Some s) = ''neutral'')
         \<and> (15/100 \<le> s \<and> s < 4/10 \<longrightarrow> intensity_label True (Some s) = ''mild'')
         \<and> (4/10 \<le> s \<and> s < 7/10 \<longrightarrow> intensity_label True (Some s) = ''moderate'')
         \<and> (7/10 \<le> s \<and> s < 9/10 \<longrightarrow> intensity_label True (Some s) = ''strong'')
         \<and> (9/10 \<le> s \<longrightarrow> intensity_label True (Some s) = ''intense'')"
proof -
  from assms have "s = 0 \<or> s = 1/4 \<or> s = 1/2 \<or> s = 3/4 \<or> s = 1"
    by blast
  then show ?thesis
    by (elim disjE; clarify; simp add: intensity_label_table)
qed

text \<open>
  C8. With intensity enabled, the label derived from a score \<open>s\<close> is \<open>neutral\<close> when
  \<open>s < 0.15\<close>, \<open>mild\<close> when \<open>0.15 \<le> s < 0.4\<close>, \<open>moderate\<close> when \<open>0.4 \<le> s < 0.7\<close>, \<open>strong\<close> when
  \<open>0.7 \<le> s < 0.9\<close> and \<open>intense\<close> when \<open>s \<ge> 0.9\<close>, where \<open>0.15\<close>, \<open>0.4\<close>, \<open>0.7\<close> and \<open>0.9\<close> are the
  float literals of the code; when the score is absent the label is empty. For every
  score that Adapter A produces the same holds with the thresholds read as decimal
  numbers, and each of those scores is labelled with the word it was parsed from. The
  label is the last column of the row.
\<close>

theorem intensity_label_thresholds:
  "(s < double_0_15 \<longrightarrow> intensity_label True (Some s) = ''neutral'')
   \<and> (double_0_15 \<le> s \<and> s < double_0_4 \<longrightarrow> intensity_label True (Some s) = ''mild'')
   \<and> (double_0_4 \<le> s \<and> s < double_0_7 \<longrightarrow> intensity_label True (Some s) = ''moderate'')
   \<and> (double_0_7 \<le> s \<and> s < double_0_9 \<longrightarrow> intensity_label True (Some s) = ''strong'')
   \<and> (double_0_9 \<le> s \<longrightarrow> intensity_label True (Some s) = ''intense'')
   \<and> intensity_label True None = ''''
   \<and> last (make_row True st et txt translation (emo, sc)) = intensity_label True sc
   \<and> (\<forall>content p.
         parse_intensity True content = Some p \<longrightarrow>
           (p < 15/100 \<longrightarrow> intensity_label True (Some p) = ''neutral'')
           \<and> (15/100 \<le> p \<and> p < 4/10 \<longrightarrow> intensity_label True (Some p) = ''mild'')
           \<and> (4/10 \<le> p \<and> p < 7/10 \<longrightarrow> intensity_label True (Some p) = ''moderate'')
           \<and> (7/10 \<le> p \<and> p < 9/10 \<longrightarrow> intensity_label True (Some p) = ''strong'')
           \<and> (9/10 \<le> p \<longrightarrow> intensity_label True (Some p) = ''intense''))
   \<and> (\<forall>(word, v) \<in> set intensity_mapping. intensity_label True (Some v) = word)
   \<and> \<bar>double_0_15 - 15/100\<bar> < 1 / 2 ^ 56 \<and> \<bar>double_0_4 - 4/10\<bar> < 1 / 2 ^ 55
   \<and> \<bar>double_0_7 - 7/10\<bar> < 1 / 2 ^ 54 \<and> \<bar>double_0_9 - 9/10\<bar> < 1 / 2 ^ 54"
proof -
  have general:
    "(s < double_0_15 \<longrightarrow> intensity_label True (Some s) = ''neutral'')
     \<and> (double_0_15 \<le> s \<and> s < double_0_4 \<longrightarrow> intensity_label True (Some s) = ''mild'')
     \<and> (double_0_4 \<le> s \<and> s < double_0_7 \<longrightarrow> intensity_label True (Some s) = ''moderate'')
     \<and> (double_0_7 \<le> s \<and> s < double_0_9 \<longrightarrow> intensity_label True (Some s) = ''strong'')
     \<and> (double_0_9 \<le> s \<longrightarrow> intensity_label True (Some s) = ''intense'')"
  proof -
    have "double_0_15 < double_0_4" "double_0_4 < double_0_7" "double_0_7 < double_0_9"
      by (simp_all add: double_0_15_def double_0_4_def double_0_7_def double_0_9_def)
    then show ?thesis
      by (auto simp: intensity_label_def)
  qed
  have absent: "intensity_label True None = ''''"
    by (simp add: intensity_label_def)
  have column: "last (make_row True st et txt translation (emo, sc)) = intensity_label True sc"
    by (simp add: make_row_def)
  have produced: "\<forall>content p.
         parse_intensity True content = Some p \<longrightarrow>
           (p < 15/100 \<longrightarrow> intensity_label True (Some p) = ''neutral'')
           \<and> (15/100 \<le> p \<and> p < 4/10 \<longrightarrow> intensity_label True (Some p) = ''mild'')
           \<and> (4/10 \<le> p \<and> p < 7/10 \<longrightarrow> intensity_label True (Some p) = ''moderate'')
           \<and> (7/10 \<le> p \<and> p < 9/10 \<longrightarrow> intensity_label True (Some p) = ''strong'')
           \<and> (9/10 \<le> p \<longrightarrow> intensity_label True (Some p) = ''intense'')"
    using parse_intensity_values produced_score_label by blast
  have words: "\<forall>(word, v) \<in> set intensity_mapping. intensity_label True (Some v) = word"
    using intensity_label_table by (simp add: intensity_mapping_def)
  from general absent column produced words double_literals(1,3,5,7)
  show ?thesis by blast
qed

theorem intensity_label_thresholds_witness:
  "double_0_7 \<le> 3/4 \<and> 3/4 < double_0_9
   \<and> intensity_label True (Some (3/4)) = ''strong''
   \<and> parse_intensity True ''Answer: anger Intensity: Strong'' = Some (3/4)
   \<and> (7/10 :: rat) \<le> 3/4 \<and> (3/4 :: rat) < 9/10
   \<and> (''strong'', 3/4) \<in> set intensity_mapping
   \<and> double_0_15 \<le> double_0_15 \<and> double_0_15 < double_0_4
   \<and> intensity_label True (Some double_0_15) = ''mild''
   \<and> (0 :: rat) < double_0_15 \<and> intensity_label True (Some 0) = ''neutral''
   \<and> double_0_4 \<le> 1/2 \<and> 1/2 < double_0_7
   \<and> intensity_label True (Some (1/2)) = ''moderate''
   \<and> double_0_9 \<le> 1 \<and> intensity_label True (Some 1) = ''intense''"
proof -
  have b: "double_0_7 \<le> 3/4" "3/4 < double_0_9" "double_0_15 < double_0_4"
    "0 < double_0_15" "double_0_4 \<le> 1/2" "1/2 < double_0_7" "double_0_9 \<le> 1"
    by (simp_all add: double_0_15_def double_0_4_def double_0_7_def double_0_9_def)
  have p: "parse_intensity True ''Answer: anger Intensity: Strong'' = Some (3/4)"
    by code_simp
  have m: "(''strong'', 3/4) \<in> set intensity_mapping"
    by (simp add: intensity_mapping_def)
  from intensity_label_thresholds[of "3/4"] intensity_label_thresholds[of double_0_15]
    intensity_label_thresholds[of 0] intensity_label_thresholds[of "1/2"]
    intensity_label_thresholds[of 1] b p m
  show ?thesis by simp
qed

section \<open>Properties of \<open>predict_any\<close>\<close>

subsection \<open>What a run that returns has done\<close>

lemma build_segments_files:
  assumes "files w = files w'"
  shows "build_segments D w inp do_translate start_time end_time
         = build_segments D w' inp do_translate start_time end_time"
  using assms by (simp add: build_segments_def)

lemma out_path_started:
  "out_path D (w\<lparr>log_records := l, environ := (environ w)(''WHISPER_MODEL'' \<mapsto> m)\<rparr>) stem
   = out_path D w stem"
  by (simp add: out_path_def)

lemma predict_any_unfold:
  "predict_any D w inp model tr cl ext ity cm start_time end_time persist =
     (case build_segments D w inp tr start_time end_time of
        Inl e \<Rightarrow> Inl e
      | Inr (src_lang, segs) \<Rightarrow>
          (case make_safe_stem (urls D) inp of
             Inl e \<Rightarrow> Inl e
           | Inr stem \<Rightarrow>
               (case classify_loop D tr cl ext ity src_lang 0 segs initial_loop_state of
                  Inl e \<Rightarrow> Inl e
                | Inr ls \<Rightarrow>
                    Inr (write_results D
                           (w\<lparr>log_records := log_records w @ [started_message inp model cm],
                              environ := (environ w)(''WHISPER_MODEL'' \<mapsto> model)\<rparr>)
                           inp ity persist src_lang (out_path D w stem) ls))))"
proof -
  let ?w1 = "w\<lparr>log_records := log_records w @ [started_message inp model cm],
               environ := (environ w)(''WHISPER_MODEL'' \<mapsto> model)\<rparr>"
  have b: "build_segments D ?w1 inp tr start_time end_time
           = build_segments D w inp tr start_time end_time"
    by (rule build_segments_files) simp
  show ?thesis
    unfolding predict_any_def Let_def b out_path_started ..
qed

lemma write_results_fields:
  assumes "write_results D w1 inp ity persist src_lang csv_path ls = (s, w')"
  shows "s = \<lparr>timestamp = clock w1, input = inp, language = src_lang, csv = csv_path\<rparr>"
    and "classifier_calls w' = classifier_calls w1 @ calls ls"
    and "environ w' = environ w1" and "clock w' = clock w1" and "log_records w' = log_records w1"
    and "\<not> (persist \<and> HISTORY_FILE D = csv_path)
           \<Longrightarrow> files w' csv_path = Some (table_text ity (rows ls))"
  using assms
  by (auto simp: write_results_def log_inference_def Let_def split: if_splits)

lemma predict_any_returns:
  assumes "predict_any D w inp model tr cl ext ity cm start_time end_time persist = Inr (s, w')"
  obtains src_lang segs stem ls where
    "build_segments D w inp tr start_time end_time = Inr (src_lang, segs)"
    "make_safe_stem (urls D) inp = Inr stem"
    "classify_loop D tr cl ext ity src_lang 0 segs initial_loop_state = Inr ls"
    "write_results D (w\<lparr>log_records := log_records w @ [started_message inp model cm],
                         environ := (environ w)(''WHISPER_MODEL'' \<mapsto> model)\<rparr>)
         inp ity persist src_lang (out_path D w stem) ls = (s, w')"
proof -
  from assms obtain src_lang segs where
    1: "build_segments D w inp tr start_time end_time = Inr (src_lang, segs)"
    unfolding predict_any_unfold
    by (cases "build_segments D w inp tr start_time end_time") auto
  from assms 1 obtain stem where 2: "make_safe_stem (urls D) inp = Inr stem"
    unfolding predict_any_unfold
    by (cases "make_safe_stem (urls D) inp") auto
  from assms 1 2 obtain ls where
    3: "classify_loop D tr cl ext ity src_lang 0 segs initial_loop_state = Inr ls"
    unfolding predict_any_unfold
    by (cases "classify_loop D tr cl ext ity src_lang 0 segs initial_loop_state") auto
  from assms 1 2 3 have
    4: "write_results D (w\<lparr>log_records := log_records w @ [started_message inp model cm],
                         environ := (environ w)(''WHISPER_MODEL'' \<mapsto> model)\<rparr>)
         inp ity persist src_lang (out_path D w stem) ls = (s, w')"
    unfolding predict_any_unfold by simp
  from 1 2 3 4 that show thesis by blast
qed

subsection \<open>The classifier selection policy\<close>

lemma make_row_emotion: "make_row ity st et txt tr r ! 4 = fst r"
  by (simp add: make_row_def)

lemma step_bert:
  assumes "process_segment D tr True ext ity lang i seg ls = Inr ls1"
    and "(\<not> ext \<and> \<not> ity) \<or> use_bert ls"
  shows "calls ls1 = calls ls @ [CallBert i] \<and> use_bert ls1 = use_bert ls
         \<and> emotions (rows ls1) = emotions (rows ls) @ [emotion_by (adapter_bert D) D tr ext ity lang i seg]"
  using assms
  by (auto simp: process_segment_def classify_def emotion_by_def emotions_def make_row_emotion
      split: sum.splits prod.splits if_splits)

lemma step_llama_ok:
  assumes "process_segment D tr True ext ity lang i seg ls = Inr ls1"
    and "ext \<or> ity" and "\<not> use_bert ls" and "\<not> llama_raises D tr ext ity lang i seg"
  shows "calls ls1 = calls ls @ [CallLlama i] \<and> \<not> use_bert ls1
         \<and> emotions (rows ls1) = emotions (rows ls) @ [emotion_by (adapter_llama D) D tr ext ity lang i seg]"
  using assms
  by (auto simp: process_segment_def classify_def emotion_by_def emotions_def make_row_emotion
      llama_raises_def split: sum.splits prod.splits if_splits)

lemma step_llama_raises:
  assumes "process_segment D tr True ext ity lang i seg ls = Inr ls1"
    and "ext \<or> ity" and "\<not> use_bert ls" and "llama_raises D tr ext ity lang i seg"
  shows "calls ls1 = calls ls @ [CallLlama i, CallBert i] \<and> use_bert ls1
         \<and> emotions (rows ls1) = emotions (rows ls) @ [emotion_by (adapter_bert D) D tr ext ity lang i seg]"
  using assms
  by (auto simp: process_segment_def classify_def emotion_by_def emotions_def make_row_emotion
      llama_raises_def split: sum.splits prod.splits if_splits)

lemma loop_bert:
  assumes "classify_loop D tr True ext ity lang i segs ls = Inr ls'"
    and "(\<not> ext \<and> \<not> ity) \<or> use_bert ls"
  shows "calls ls' = calls ls @ map CallBert [i..<i + length segs]
         \<and> emotions (rows ls') = emotions (rows ls)
              @ map (\<lambda>j. emotion_by (adapter_bert D) D tr ext ity lang (i + j) (segs ! j)) [0..<length segs]"
  using assms
proof (induction segs arbitrary: i ls)
  case Nil
  then show ?case by simp
next
  case (Cons seg segs)
  from Cons.prems(1) obtain ls1 where
    s: "process_segment D tr True ext ity lang i seg ls = Inr ls1"
    and r: "classify_loop D tr True ext ity lang (Suc i) segs ls1 = Inr ls'"
    by (auto split: sum.splits)
  note st = step_bert[OF s Cons.prems(2)]
  from st Cons.prems(2) have ub: "(\<not> ext \<and> \<not> ity) \<or> use_bert ls1" by simp
  note ih = Cons.IH[OF r ub]
  have u: "[i..<i + length (seg # segs)] = i # [Suc i..<Suc i + length segs]"
    using upt_conv_Cons[of i "i + length (seg # segs)"] by (simp del: upt_Suc)
  have m: "map (\<lambda>j. emotion_by (adapter_bert D) D tr ext ity lang (i + j) ((seg # segs) ! j))
             [0..<length (seg # segs)]
           = emotion_by (adapter_bert D) D tr ext ity lang i seg
             # map (\<lambda>j. emotion_by (adapter_bert D) D tr ext ity lang (Suc i + j) (segs ! j))
                 [0..<length segs]"
    by (simp add: map_upt_Suc del: upt_Suc)
  show ?case
    unfolding u m using ih st by simp
qed

lemma loop_llama:
  assumes "classify_loop D tr True ext ity lang i segs ls = Inr ls'"
    and "ext \<or> ity" and "\<not> use_bert ls"
  shows "\<exists>k \<le> length segs.
           (\<forall>j < k. \<not> llama_raises D tr ext ity lang (i + j) (segs ! j))
           \<and> (k < length segs \<longrightarrow> llama_raises D tr ext ity lang (i + k) (segs ! k))
           \<and> calls ls' = calls ls @ map CallLlama [i..<i + k]
                @ (if k < length segs then CallLlama (i + k) # map CallBert [i + k..<i + length segs]
                   else [])
           \<and> emotions (rows ls') = emotions (rows ls)
                @ map (\<lambda>j. emotion_by (if j < k then adapter_llama D else adapter_bert D)
                             D tr ext ity lang (i + j) (segs ! j)) [0..<length segs]"
  using assms
proof (induction segs arbitrary: i ls)
  case Nil
  then show ?case by simp
next
  case (Cons seg segs)
  from Cons.prems(1) obtain ls1 where
    s: "process_segment D tr True ext ity lang i seg ls = Inr ls1"
    and r: "classify_loop D tr True ext ity lang (Suc i) segs ls1 = Inr ls'"
    by (auto split: sum.splits)
  show ?case
  proof (cases "llama_raises D tr ext ity lang i seg")
    case True
    note st = step_llama_raises[OF s Cons.prems(2,3) True]
    from st have ub: "(\<not> ext \<and> \<not> ity) \<or> use_bert ls1" by simp
    note lb = loop_bert[OF r ub]
    have m: "map (\<lambda>j. emotion_by (if j < 0 then adapter_llama D else adapter_bert D)
                    D tr ext ity lang (i + j) ((seg # segs) ! j)) [0..<length (seg # segs)]
           = emotion_by (adapter_bert D) D tr ext ity lang i seg
             # map (\<lambda>j. emotion_by (adapter_bert D) D tr ext ity lang (Suc i + j) (segs ! j))
                 [0..<length segs]"
      by (simp add: map_upt_Suc del: upt_Suc)
    have "(\<forall>j < 0. \<not> llama_raises D tr ext ity lang (i + j) ((seg # segs) ! j))
           \<and> (0 < length (seg # segs) \<longrightarrow> llama_raises D tr ext ity lang (i + 0) ((seg # segs) ! 0))
           \<and> calls ls' = calls ls @ map CallLlama [i..<i + 0]
                @ (if 0 < length (seg # segs)
                   then CallLlama (i + 0) # map CallBert [i + 0..<i + length (seg # segs)]
                   else [])
           \<and> emotions (rows ls') = emotions (rows ls)
                @ map (\<lambda>j. emotion_by (if j < 0 then adapter_llama D else adapter_bert D)
                             D tr ext ity lang (i + j) ((seg # segs) ! j)) [0..<length (seg # segs)]"
      unfolding m using True lb st
      by (simp add: upt_conv_Cons del: upt_Suc)
    then show ?thesis by blast
  next
    case False
    note st = step_llama_ok[OF s Cons.prems(2,3) False]
    from st have nb: "\<not> use_bert ls1" by simp
    from Cons.IH[OF r Cons.prems(2) nb] obtain k where
      k: "k \<le> length segs"
      and ok: "\<forall>j < k. \<not> llama_raises D tr ext ity lang (Suc i + j) (segs ! j)"
      and bad: "k < length segs \<longrightarrow> llama_raises D tr ext ity lang (Suc i + k) (segs ! k)"
      and cs: "calls ls' = calls ls1 @ map CallLlama [Suc i..<Suc i + k]
                @ (if k < length segs
                   then CallLlama (Suc i + k) # map CallBert [Suc i + k..<Suc i + length segs]
                   else [])"
      and es: "emotions (rows ls') = emotions (rows ls1)
                @ map (\<lambda>j. emotion_by (if j < k then adapter_llama D else adapter_bert D)
                             D tr ext ity lang (Suc i + j) (segs ! j)) [0..<length segs]"
      by blast
    have ok': "\<forall>j < Suc k. \<not> llama_raises D tr ext ity lang (i + j) ((seg # segs) ! j)"
    proof (intro allI impI)
      fix j assume "j < Suc k"
      then show "\<not> llama_raises D tr ext ity lang (i + j) ((seg # segs) ! j)"
        using False ok by (cases j) simp_all
    qed
    have u: "[i..<i + Suc k] = i # [Suc i..<Suc i + k]"
      using upt_conv_Cons[of i "i + Suc k"] by (simp del: upt_Suc)
    have m: "map (\<lambda>j. emotion_by (if j < Suc k then adapter_llama D else adapter_bert D)
                    D tr ext ity lang (i + j) ((seg # segs) ! j)) [0..<length (seg # segs)]
           = emotion_by (adapter_llama D) D tr ext ity lang i seg
             # map (\<lambda>j. emotion_by (if j < k then adapter_llama D else adapter_bert D)
                    D tr ext ity lang (Suc i + j) (segs ! j)) [0..<length segs]"
      by (simp add: map_upt_Suc del: upt_Suc)
    have "Suc k \<le> length (seg # segs)
           \<and> (\<forall>j < Suc k. \<not> llama_raises D tr ext ity lang (i + j) ((seg # segs) ! j))
           \<and> (Suc k < length (seg # segs)
                \<longrightarrow> llama_raises D tr ext ity lang (i + Suc k) ((seg # segs) ! Suc k))
           \<and> calls ls' = calls ls @ map CallLlama [i..<i + Suc k]
                @ (if Suc k < length (seg # segs)
                   then CallLlama (i + Suc k) # map CallBert [i + Suc k..<i + length (seg # segs)]
                   else [])
           \<and> emotions (rows ls') = emotions (rows ls)
                @ map (\<lambda>j. emotion_by (if j < Suc k then adapter_llama D else adapter_bert D)
                             D tr ext ity lang (i + j) ((seg # segs) ! j)) [0..<length (seg # segs)]"
      unfolding m u using k ok' bad cs es st
      by (simp del: upt_Suc)
    then show ?thesis by blast
  qed
qed

text \<open>
  C2. In \<open>predict_any\<close> with classification enabled: if neither extended labels nor
  intensity are requested, every segment is classified by Adapter B and Adapter A is
  never called; otherwise each segment is classified by Adapter A until Adapter A first
  raises, at segment \<open>k\<close>; that segment and every later one is classified by Adapter B, and
  Adapter A is not called again within the request.
\<close>

theorem sticky_fallback:
  assumes "predict_any D w inp model tr True ext ity cm start_time end_time persist = Inr (s, w')"
  shows "\<exists>src_lang segs ls k.
           build_segments D w inp tr start_time end_time = Inr (src_lang, segs)
           \<and> classify_loop D tr True ext ity src_lang 0 segs initial_loop_state = Inr ls
           \<and> classifier_calls w' = classifier_calls w @ calls ls
           \<and> k \<le> length segs
           \<and> (\<not> ext \<and> \<not> ity \<longrightarrow>
                calls ls = map CallBert [0..<length segs]
                \<and> emotions (rows ls)
                    = map (\<lambda>j. emotion_by (adapter_bert D) D tr ext ity src_lang j (segs ! j))
                        [0..<length segs])
           \<and> (ext \<or> ity \<longrightarrow>
                (\<forall>j < k. \<not> llama_raises D tr ext ity src_lang j (segs ! j))
                \<and> (k < length segs \<longrightarrow> llama_raises D tr ext ity src_lang k (segs ! k))
                \<and> calls ls = sticky_calls k (length segs)
                \<and> emotions (rows ls)
                    = map (\<lambda>j. emotion_by (if j < k then adapter_llama D else adapter_bert D)
                                 D tr ext ity src_lang j (segs ! j)) [0..<length segs])"
proof -
  from assms obtain src_lang segs stem ls where
    b: "build_segments D w inp tr start_time end_time = Inr (src_lang, segs)"
    and l: "classify_loop D tr True ext ity src_lang 0 segs initial_loop_state = Inr ls"
    and wr: "write_results D (w\<lparr>log_records := log_records w @ [started_message inp model cm],
                         environ := (environ w)(''WHISPER_MODEL'' \<mapsto> model)\<rparr>)
         inp ity persist src_lang (out_path D w stem) ls = (s, w')"
    by (rule predict_any_returns)
  from write_results_fields(2)[OF wr]
  have c: "classifier_calls w' = classifier_calls w @ calls ls"
    by simp
  have init: "calls initial_loop_state = []" "rows initial_loop_state = []"
    "\<not> use_bert initial_loop_state"
    by (simp_all add: initial_loop_state_def)
  show ?thesis
  proof (cases "ext \<or> ity")
    case False
    then have "(\<not> ext \<and> \<not> ity) \<or> use_bert initial_loop_state" by simp
    from loop_bert[OF l this] b l c False show ?thesis
      by (auto simp: init emotions_def)
  next
    case True
    from loop_llama[OF l True init(3)] obtain k where
      "k \<le> length segs"
      "\<forall>j < k. \<not> llama_raises D tr ext ity src_lang (0 + j) (segs ! j)"
      "k < length segs \<longrightarrow> llama_raises D tr ext ity src_lang (0 + k) (segs ! k)"
      "calls ls = calls initial_loop_state @ map CallLlama [0..<0 + k]
         @ (if k < length segs then CallLlama (0 + k) # map CallBert [0 + k..<0 + length segs]
            else [])"
      "emotions (rows ls) = emotions (rows initial_loop_state)
         @ map (\<lambda>j. emotion_by (if j < k then adapter_llama D else adapter_bert D)
                      D tr ext ity src_lang (0 + j) (segs ! j)) [0..<length segs]"
      by blast
    with b l c True show ?thesis
      by (auto simp: init emotions_def sticky_calls_def)
  qed
qed

theorem sticky_fallback_witness:
  "\<exists>s w' (segs :: segment list) (ls :: loop_state) k.
     predict_any (stub_deps (fails_at 1 ''joy'') (always ''sad''))
         (stub_world ''notes.txt'' ''One.\<newline>Two!\<newline>Three'' ''2025-06-25T10:30:00Z'')
         ''notes.txt'' ''medium'' True True True False (Some ''llama'') None None False
       = Inr (s, w')
     \<and> classifier_calls w' = [CallLlama 0, CallLlama 1, CallBert 1, CallBert 2]
     \<and> classifier_calls w' = calls ls
     \<and> k \<le> length segs
     \<and> calls ls = sticky_calls k (length segs)"
proof -
  let ?run = "predict_any (stub_deps (fails_at 1 ''joy'') (always ''sad''))
         (stub_world ''notes.txt'' ''One.\<newline>Two!\<newline>Three'' ''2025-06-25T10:30:00Z'')
         ''notes.txt'' ''medium'' True True True False (Some ''llama'') None None False"
  have ev: "case ?run of
              Inl e \<Rightarrow> False
            | Inr (s, w) \<Rightarrow> classifier_calls w = [CallLlama 0, CallLlama 1, CallBert 1, CallBert 2]"
    by code_simp
  then obtain s w' where r: "?run = Inr (s, w')"
    and c: "classifier_calls w' = [CallLlama 0, CallLlama 1, CallBert 1, CallBert 2]"
    by (cases ?run) auto
  have e: "classifier_calls
             (stub_world ''notes.txt'' ''One.\<newline>Two!\<newline>Three'' ''2025-06-25T10:30:00Z'') = []"
    by (simp add: stub_world_def)
  from sticky_fallback[OF r] obtain segs :: "segment list" and ls :: loop_state and k where
    a: "classifier_calls w' = classifier_calls
          (stub_world ''notes.txt'' ''One.\<newline>Two!\<newline>Three'' ''2025-06-25T10:30:00Z'') @ calls ls"
    and b: "k \<le> length segs"
    and d: "calls ls = sticky_calls k (length segs)"
    by blast
  from a have "classifier_calls w' = calls ls"
    unfolding e by simp
  with r c b d show ?thesis by blast
qed

subsection \<open>Segments of a text file\<close>

lemma strip_last: 
  assumes "strip s \<noteq> []"
  shows "\<not> is_space (last (strip s))"
proof -
  let ?xs = "dropWhile is_space (rev (dropWhile is_space s))"
  from assms have ne: "?xs \<noteq> []"
    by (simp add: strip_def)
  then have "\<not> is_space (hd ?xs)"
    by (rule hd_dropWhile)
  moreover have "last (strip s) = hd ?xs"
    using ne by (simp add: strip_def last_rev)
  ultimately show ?thesis by simp
qed

lemma newline_is_space: "is_space (CHR 0x0A)"
  by code_simp

lemma ends_terminal_last:
  assumes "s \<noteq> []" and "\<not> is_space (last s)"
  shows "ends_terminal s = is_terminal (last s)"
proof -
  from assms(1) obtain c r where cr: "rev s = c # r"
    by (cases "rev s") auto
  then have "last s = c"
    using hd_rev[of s] by simp
  with assms(2) newline_is_space have "c \<noteq> CHR 0x0A" by auto
  with cr \<open>last s = c\<close> show ?thesis
    by (simp add: ends_terminal_def)
qed

lemma punctuate_stripped:
  assumes "s \<noteq> []" and "\<not> is_space (last s)"
  shows "punctuate s = (if is_terminal (last s) then s else s @ ''.'')"
    and "punctuate s \<noteq> []" and "is_terminal (last (punctuate s))"
  using ends_terminal_last[OF assms] assms(1)
  by (simp_all add: punctuate_def is_terminal_def)

lemma txt_sentences_stripped:
  assumes "x \<in> set (txt_sentences raw)"
  shows "x \<noteq> [] \<and> \<not> is_space (last x)"
proof -
  from assms obtain l where "x = strip l" and "strip l \<noteq> []"
    by (auto simp: txt_sentences_def)
  then show ?thesis
    using strip_last[of l] by simp
qed

lemma csv_sentences_stripped:
  assumes "x \<in> set (csv_sentences all_rows)"
  shows "x \<noteq> [] \<and> \<not> is_space (last x)"
proof -
  from assms obtain row where "x = strip (hd row)" and "strip (hd row) \<noteq> []"
    by (auto simp: csv_sentences_def)
  then show ?thesis
    using strip_last[of "hd row"] by simp
qed

lemma text_segments_cases:
  "sentences \<noteq> [] \<longrightarrow> map seg_text (text_segments raw sentences) = map punctuate sentences"
  "sentences = [] \<and> raw \<noteq> [] \<longrightarrow>
     text_segments raw sentences = [\<lparr>seg_start = 0, seg_end = 0, seg_text = punctuate raw\<rparr>]"
  "sentences = [] \<and> raw = [] \<longrightarrow> text_segments raw sentences = []"
  "length (text_segments raw sentences)
     = (if sentences = [] \<and> raw \<noteq> [] then 1 else length sentences)"
  by (simp_all add: text_segments_def Let_def comp_def)

lemma text_segments_terminal:
  assumes "\<forall>x \<in> set sentences. x \<noteq> [] \<and> \<not> is_space (last x)"
    and "raw = strip content"
    and "seg \<in> set (text_segments raw sentences)"
  shows "seg_start seg = 0 \<and> seg_end seg = 0 \<and> seg_text seg \<noteq> []
         \<and> is_terminal (last (seg_text seg))"
proof -
  let ?s1 = "if sentences = [] \<and> raw \<noteq> [] then [raw] else sentences"
  from assms(3) obtain x where x: "x \<in> set ?s1"
    and seg: "seg = \<lparr>seg_start = 0, seg_end = 0, seg_text = punctuate x\<rparr>"
    unfolding text_segments_def Let_def by auto
  have "x \<noteq> [] \<and> \<not> is_space (last x)"
  proof (cases "sentences = [] \<and> raw \<noteq> []")
    case True
    with x have "x = raw" by simp
    with True assms(2) strip_last[of content] show ?thesis by simp
  next
    case False
    with x have "x \<in> set sentences" by simp
    with assms(1) show ?thesis by blast
  qed
  then have "punctuate x \<noteq> []" and "is_terminal (last (punctuate x))"
    by (simp_all add: punctuate_stripped(2,3))
  with seg show ?thesis by simp
qed

lemma build_segments_text:
  assumes "is_text inp" and "files w inp = Some content"
  shows "build_segments D w inp tr start_time end_time =
           (if lower (path_suffix inp) = ''.txt''
            then Inr (detect_lang D (raw_text content),
                      text_segments (raw_text content) (txt_sentences (raw_text content)))
            else (case csv_reader D content of
                    Inl e \<Rightarrow> Inl e
                  | Inr all_rows \<Rightarrow>
                      Inr (detect_lang D (raw_text content),
                           text_segments (raw_text content) (csv_sentences all_rows))))"
  using assms
  by (cases "csv_reader D content") (simp_all add: build_segments_def Let_def)

lemma csv_scenario:
  "case predict_any (stub_deps (always ''joy'') (always ''joy''))
          (stub_world ''input.csv'' ''Text\<newline>Hello world\<newline>Goodbye'' ''2025-06-25T10:30:00Z'')
          ''input.csv'' ''base'' False True False False None None None False of
     Inl e \<Rightarrow> False
   | Inr (s, w) \<Rightarrow>
       files w (csv s) = Some (concat (map csv_writerow
         [[''start'', ''end'', ''sentence'', ''translation'', ''emotion''],
          [''00:00:00,000'', ''00:00:00,000'', ''Hello world.'', ''Hello world.'', ''joy''],
          [''00:00:00,000'', ''00:00:00,000'', ''Goodbye.'', ''Goodbye.'', ''joy'']]))"
  by code_simp

lemma strip_nonempty_iff: "strip l \<noteq> [] \<longleftrightarrow> (\<exists>c \<in> set l. \<not> is_space c)"
proof -
  have inner: "(\<forall>x \<in> set (dropWhile is_space l). is_space x) \<longleftrightarrow> (\<forall>x \<in> set l. is_space x)"
  proof
    assume all: "\<forall>x \<in> set (dropWhile is_space l). is_space x"
    have "dropWhile is_space l = []"
    proof (rule ccontr)
      assume ne: "dropWhile is_space l \<noteq> []"
      then have "\<not> is_space (hd (dropWhile is_space l))"
        by (rule hd_dropWhile)
      moreover from ne have "hd (dropWhile is_space l) \<in> set (dropWhile is_space l)"
        by simp
      ultimately show False using all by blast
    qed
    then show "\<forall>x \<in> set l. is_space x"
      by (simp add: dropWhile_eq_Nil_conv)
  next
    assume "\<forall>x \<in> set l. is_space x"
    then show "\<forall>x \<in> set (dropWhile is_space l). is_space x"
      using set_dropWhileD by fastforce
  qed
  have "strip l = [] \<longleftrightarrow> (\<forall>x \<in> set (dropWhile is_space l). is_space x)"
    by (simp add: strip_def dropWhile_eq_Nil_conv)
  with inner show ?thesis by blast
qed

lemma linebreak_is_space: "is_linebreak c \<Longrightarrow> is_space c"
  by (auto simp: is_linebreak_def is_space_def)

lemma return_newline_linebreak: "is_linebreak (CHR 0x0D)" "is_linebreak (CHR 0x0A)"
  by code_simp+

lemma splitlines_from_covers:
  assumes "c \<in> set cur \<or> c \<in> set s" and "\<not> is_linebreak c"
  shows "\<exists>l \<in> set (splitlines_from cur s). c \<in> set l"
  using assms
proof (induction cur s rule: splitlines_from.induct)
  case (1 cur)
  then show ?case by auto
next
  case (2 cur c')
  then show ?case by auto
next
  case (3 cur c' d cs)
  show ?case
  proof (cases "c' = CHR 0x0D \<and> d = CHR 0x0A")
    case True
    then have eq: "splitlines_from cur (c' # d # cs) = cur # splitlines_from [] cs"
      by simp
    from True "3.prems" return_newline_linebreak have "c \<in> set cur \<or> c \<in> set cs"
      by auto
    then show ?thesis
    proof
      assume "c \<in> set cur"
      then show ?thesis unfolding eq by simp
    next
      assume "c \<in> set cs"
      then have "c \<in> set [] \<or> c \<in> set cs" by simp
      from "3.IH"(1)[OF True this "3.prems"(2)] show ?thesis
        unfolding eq by auto
    qed
  next
    case False
    show ?thesis
    proof (cases "is_linebreak c'")
      case True
      with False have eq: "splitlines_from cur (c' # d # cs) = cur # splitlines_from [] (d # cs)"
        by auto
      from True "3.prems" have "c \<in> set cur \<or> c \<in> set (d # cs)" by auto
      then show ?thesis
      proof
        assume "c \<in> set cur"
        then show ?thesis unfolding eq by simp
      next
        assume "c \<in> set (d # cs)"
        then have "c \<in> set [] \<or> c \<in> set (d # cs)" by simp
        from "3.IH"(2)[OF False True this "3.prems"(2)] show ?thesis
          unfolding eq by auto
      qed
    next
      case nb: False
      with False have eq: "splitlines_from cur (c' # d # cs) = splitlines_from (cur @ [c']) (d # cs)"
        by auto
      from "3.prems"(1) have "c \<in> set (cur @ [c']) \<or> c \<in> set (d # cs)" by auto
      from "3.IH"(3)[OF False nb this "3.prems"(2)] show ?thesis
        unfolding eq .
    qed
  qed
qed

lemma raw_has_sentence:
  assumes "strip x \<noteq> []"
  shows "txt_sentences (strip x) \<noteq> []"
proof -
  let ?c = "last (strip x)"
  from assms have "?c \<in> set (strip x)" by simp
  moreover from strip_last[OF assms] linebreak_is_space have "\<not> is_linebreak ?c" by blast
  ultimately obtain l where l: "l \<in> set (splitlines (strip x))" and c: "?c \<in> set l"
    unfolding splitlines_def using splitlines_from_covers[of ?c "[]" "strip x"] by auto
  from c strip_last[OF assms] have "strip l \<noteq> []"
    using strip_nonempty_iff by blast
  with l show ?thesis
    by (auto simp: txt_sentences_def filter_empty_conv)
qed

lemma txt_sentences_explicit:
  "txt_sentences raw = map strip (filter (\<lambda>l. \<exists>c \<in> set l. \<not> is_space c) (splitlines raw))"
  by (simp add: txt_sentences_def strip_nonempty_iff)

lemma csv_sentences_explicit:
  "csv_sentences all_rows =
     map (\<lambda>row. strip (hd row))
       (filter (\<lambda>row. row \<noteq> [] \<and> (\<exists>c \<in> set (hd row). \<not> is_space c)) (drop 1 all_rows))"
  by (simp add: csv_sentences_def strip_nonempty_iff)

lemma punctuate_explicit:
  assumes "x \<noteq> []" and "\<not> is_space (last x)"
  shows "punctuate x = (if last x \<in> {CHR ''.'', CHR ''!'', CHR ''?''} then x else x @ ''.'')"
  using punctuate_stripped(1)[OF assms] by (simp add: is_terminal_def)

lemma text_segments_explicit:
  assumes "\<forall>x \<in> set sentences. x \<noteq> [] \<and> \<not> is_space (last x)"
    and "raw = strip content"
  shows "text_segments raw sentences =
           map (\<lambda>s. \<lparr>seg_start = 0, seg_end = 0,
                      seg_text = (if last s \<in> {CHR ''.'', CHR ''!'', CHR ''?''} then s else s @ ''.'')\<rparr>)
             (if sentences = [] \<and> raw \<noteq> [] then [raw] else sentences)"
proof -
  let ?s1 = "if sentences = [] \<and> raw \<noteq> [] then [raw] else sentences"
  have "x \<noteq> [] \<and> \<not> is_space (last x)" if "x \<in> set ?s1" for x
  proof (cases "sentences = [] \<and> raw \<noteq> []")
    case True
    with that have "x = raw" by simp
    with True assms(2) strip_last[of content] show ?thesis by simp
  next
    case False
    with that have "x \<in> set sentences" by simp
    with assms(1) show ?thesis by blast
  qed
  then have good: "\<And>x. x \<in> set ?s1 \<Longrightarrow> x \<noteq> [] \<and> \<not> is_space (last x)" .
  have "map punctuate ?s1 =
          map (\<lambda>s. if last s \<in> {CHR ''.'', CHR ''!'', CHR ''?''} then s else s @ ''.'') ?s1"
  proof (rule map_cong[OF refl])
    fix x
    assume "x \<in> set ?s1"
    then have "x \<noteq> []" and "\<not> is_space (last x)"
      using good by blast+
    then show "punctuate x = (if last x \<in> {CHR ''.'', CHR ''!'', CHR ''?''} then x else x @ ''.'')"
      by (rule punctuate_explicit)
  qed
  then have "map (\<lambda>s. \<lparr>seg_start = 0, seg_end = 0, seg_text = s\<rparr>) (map punctuate ?s1) =
          map (\<lambda>s. \<lparr>seg_start = 0, seg_end = 0, seg_text = s\<rparr>)
            (map (\<lambda>s. if last s \<in> {CHR ''.'', CHR ''!'', CHR ''?''} then s else s @ ''.'') ?s1)"
    by (rule arg_cong)
  then show ?thesis
    unfolding text_segments_def Let_def map_map comp_def .
qed

text \<open>
  C6. For a text-file input, \<open>predict_any\<close> builds one segment per line that holds a
  character other than white space (for \<open>.csv\<close>: per row after the header row whose first
  column holds one), in the order of the file: the line or first column, stripped, with
  \<open>.\<close> appended unless it already ends in \<open>.\<close>, \<open>!\<close> or \<open>?\<close>. A file that yields no such
  sentence but has non-empty trimmed content gives a single segment made from the trimmed
  content by the same rule, and a file without content gives no segment. All segments
  start and end at 0 and end in one of the three marks. The \<open>.csv\<close> with header \<open>Text\<close> and
  the rows \<open>Hello world\<close> and \<open>Goodbye\<close>, classified as \<open>joy\<close>, gives an artifact of three
  rows, the second \<open>[00:00:00,000, 00:00:00,000, Hello world., Hello world., joy]\<close> and the
  third with sentence \<open>Goodbye.\<close>.
\<close>

theorem text_file_segments:
  assumes "is_text inp" and "files w inp = Some content"
  shows
    "let raw = strip (universal_newlines content);
         segments_of = (\<lambda>sentences.
           map (\<lambda>s. \<lparr>seg_start = 0, seg_end = 0,
                      seg_text = (if last s \<in> {CHR ''.'', CHR ''!'', CHR ''?''} then s else s @ ''.'')\<rparr>)
             (if sentences = [] \<and> raw \<noteq> [] then [raw] else sentences));
         kept_lines = filter (\<lambda>l. \<exists>c \<in> set l. \<not> is_space c) (splitlines raw);
         kept_rows = (\<lambda>all_rows.
           filter (\<lambda>row. row \<noteq> [] \<and> (\<exists>c \<in> set (hd row). \<not> is_space c)) (drop 1 all_rows))
     in (lower (path_suffix inp) = ''.txt'' \<longrightarrow>
           build_segments D w inp tr start_time end_time
             = Inr (detect_lang D raw, segments_of (map strip kept_lines))
           \<and> length (segments_of (map strip kept_lines)) = length kept_lines)
        \<and> (\<forall>all_rows. lower (path_suffix inp) \<noteq> ''.txt'' \<and> csv_reader D content = Inr all_rows \<longrightarrow>
             build_segments D w inp tr start_time end_time
               = Inr (detect_lang D raw, segments_of (map (\<lambda>row. strip (hd row)) (kept_rows all_rows)))
             \<and> length (segments_of (map (\<lambda>row. strip (hd row)) (kept_rows all_rows)))
                 = (if kept_rows all_rows = [] \<and> raw \<noteq> [] then 1 else length (kept_rows all_rows)))
        \<and> (\<forall>e. lower (path_suffix inp) \<noteq> ''.txt'' \<and> csv_reader D content = Inl e \<longrightarrow>
             build_segments D w inp tr start_time end_time = Inl e)
        \<and> (content = [] \<and> (lower (path_suffix inp) = ''.txt'' \<or> csv_reader D content = Inr []) \<longrightarrow>
             build_segments D w inp tr start_time end_time = Inr (detect_lang D [], []))
        \<and> (\<forall>src_lang segs. build_segments D w inp tr start_time end_time = Inr (src_lang, segs) \<longrightarrow>
             (\<forall>seg \<in> set segs. seg_start seg = 0 \<and> seg_end seg = 0 \<and> seg_text seg \<noteq> []
                \<and> last (seg_text seg) \<in> {CHR ''.'', CHR ''!'', CHR ''?''}))
        \<and> (case predict_any (stub_deps (always ''joy'') (always ''joy''))
                 (stub_world ''input.csv'' ''Text\<newline>Hello world\<newline>Goodbye'' ''2025-06-25T10:30:00Z'')
                 ''input.csv'' ''base'' False True False False None None None False of
              Inl e \<Rightarrow> False
            | Inr (s, w) \<Rightarrow>
                files w (csv s) = Some (concat (map csv_writerow
                  [[''start'', ''end'', ''sentence'', ''translation'', ''emotion''],
                   [''00:00:00,000'', ''00:00:00,000'', ''Hello world.'', ''Hello world.'', ''joy''],
                   [''00:00:00,000'', ''00:00:00,000'', ''Goodbye.'', ''Goodbye.'', ''joy'']])))"
proof -
  let ?raw = "strip (universal_newlines content)"
  let ?mark = "\<lambda>s. if last s \<in> {CHR ''.'', CHR ''!'', CHR ''?''} then s else s @ ''.''"
  let ?segments_of = "\<lambda>sentences.
           map (\<lambda>s. \<lparr>seg_start = 0, seg_end = 0, seg_text = ?mark s\<rparr>)
             (if sentences = [] \<and> ?raw \<noteq> [] then [?raw] else sentences)"
  let ?kept_lines = "filter (\<lambda>l. \<exists>c \<in> set l. \<not> is_space c) (splitlines ?raw)"
  let ?kept_rows = "\<lambda>all_rows.
           filter (\<lambda>row. row \<noteq> [] \<and> (\<exists>c \<in> set (hd row). \<not> is_space c)) (drop 1 all_rows)"
  note bs = build_segments_text[OF assms, of D tr start_time end_time, unfolded raw_text_def]
  have txt_segs: "text_segments ?raw (txt_sentences ?raw) = ?segments_of (map strip ?kept_lines)"
    using text_segments_explicit[of "txt_sentences ?raw" ?raw "universal_newlines content"]
      txt_sentences_stripped[of _ ?raw]
    by (simp add: txt_sentences_explicit)
  have csv_segs: "text_segments ?raw (csv_sentences all_rows)
                  = ?segments_of (map (\<lambda>row. strip (hd row)) (?kept_rows all_rows))" for all_rows
    using text_segments_explicit[of "csv_sentences all_rows" ?raw "universal_newlines content"]
      csv_sentences_stripped[of _ all_rows]
    by (simp add: csv_sentences_explicit)
  have raw_line: "?kept_lines \<noteq> []" if "?raw \<noteq> []"
  proof -
    from that have "txt_sentences ?raw \<noteq> []"
      by (rule raw_has_sentence)
    then show ?thesis by (simp add: txt_sentences_explicit)
  qed
  have A: "lower (path_suffix inp) = ''.txt'' \<longrightarrow>
           build_segments D w inp tr start_time end_time
             = Inr (detect_lang D ?raw, ?segments_of (map strip ?kept_lines))
           \<and> length (?segments_of (map strip ?kept_lines)) = length ?kept_lines"
    using bs txt_segs raw_line by auto
  have B: "\<forall>all_rows. lower (path_suffix inp) \<noteq> ''.txt'' \<and> csv_reader D content = Inr all_rows \<longrightarrow>
             build_segments D w inp tr start_time end_time
               = Inr (detect_lang D ?raw, ?segments_of (map (\<lambda>row. strip (hd row)) (?kept_rows all_rows)))
             \<and> length (?segments_of (map (\<lambda>row. strip (hd row)) (?kept_rows all_rows)))
                 = (if ?kept_rows all_rows = [] \<and> ?raw \<noteq> [] then 1 else length (?kept_rows all_rows))"
    using bs csv_segs by auto
  have C: "\<forall>e. lower (path_suffix inp) \<noteq> ''.txt'' \<and> csv_reader D content = Inl e \<longrightarrow>
             build_segments D w inp tr start_time end_time = Inl e"
    using bs by auto
  have E: "content = [] \<and> (lower (path_suffix inp) = ''.txt'' \<or> csv_reader D content = Inr []) \<longrightarrow>
             build_segments D w inp tr start_time end_time = Inr (detect_lang D [], [])"
  proof
    assume e: "content = [] \<and> (lower (path_suffix inp) = ''.txt'' \<or> csv_reader D content = Inr [])"
    then have r: "?raw = []"
      by (simp add: strip_def)
    have "txt_sentences [] = []"
      by (simp add: txt_sentences_def splitlines_def)
    moreover have "csv_sentences [] = []"
      by (simp add: csv_sentences_def)
    moreover have "text_segments [] [] = []"
      by (simp add: text_segments_def)
    ultimately show "build_segments D w inp tr start_time end_time = Inr (detect_lang D [], [])"
      using bs e r by auto
  qed
  have F: "\<forall>src_lang segs. build_segments D w inp tr start_time end_time = Inr (src_lang, segs) \<longrightarrow>
             (\<forall>seg \<in> set segs. seg_start seg = 0 \<and> seg_end seg = 0 \<and> seg_text seg \<noteq> []
                \<and> last (seg_text seg) \<in> {CHR ''.'', CHR ''!'', CHR ''?''})"
  proof (intro allI impI)
    fix src_lang segs
    assume r: "build_segments D w inp tr start_time end_time = Inr (src_lang, segs)"
    have "\<exists>sentences. segs = text_segments ?raw sentences
            \<and> (\<forall>x \<in> set sentences. x \<noteq> [] \<and> \<not> is_space (last x))"
    proof (cases "lower (path_suffix inp) = ''.txt''")
      case True
      with bs r have "segs = text_segments ?raw (txt_sentences ?raw)" by simp
      then show ?thesis using txt_sentences_stripped by blast
    next
      case False
      with bs r obtain all_rows where "segs = text_segments ?raw (csv_sentences all_rows)"
        by (cases "csv_reader D content") auto
      then show ?thesis using csv_sentences_stripped by blast
    qed
    then obtain sentences where segs: "segs = text_segments ?raw sentences"
      and st: "\<forall>x \<in> set sentences. x \<noteq> [] \<and> \<not> is_space (last x)"
      by blast
    show "\<forall>seg \<in> set segs. seg_start seg = 0 \<and> seg_end seg = 0 \<and> seg_text seg \<noteq> []
                \<and> last (seg_text seg) \<in> {CHR ''.'', CHR ''!'', CHR ''?''}"
      unfolding segs
      using text_segments_terminal[OF st, of ?raw "universal_newlines content"]
      by (simp add: is_terminal_def)
  qed
  show ?thesis
    unfolding Let_def by (intro conjI A B C E F csv_scenario)
qed

theorem text_file_segments_witness:
  "is_text ''input.csv''
   \<and> files (stub_world ''input.csv'' ''Text\<newline>Hello world\<newline>Goodbye'' ''2025-06-25T10:30:00Z'')
        ''input.csv'' = Some ''Text\<newline>Hello world\<newline>Goodbye''
   \<and> lower (path_suffix ''input.csv'') \<noteq> ''.txt''
   \<and> csv_reader (stub_deps (always ''joy'') (always ''joy'')) ''Text\<newline>Hello world\<newline>Goodbye''
        = Inr [[''Text''], [''Hello world''], [''Goodbye'']]
   \<and> build_segments (stub_deps (always ''joy'') (always ''joy''))
        (stub_world ''input.csv'' ''Text\<newline>Hello world\<newline>Goodbye'' ''2025-06-25T10:30:00Z'')
        ''input.csv'' False None None
       = Inr (''en'', [\<lparr>seg_start = 0, seg_end = 0, seg_text = ''Hello world.''\<rparr>,
                       \<lparr>seg_start = 0, seg_end = 0, seg_text = ''Goodbye.''\<rparr>])"
proof -
  let ?D = "stub_deps (always ''joy'') (always ''joy'')"
  let ?c = "''Text\<newline>Hello world\<newline>Goodbye''"
  let ?W = "stub_world ''input.csv'' ?c ''2025-06-25T10:30:00Z''"
  let ?raw = "strip (universal_newlines ?c)"
  let ?segments_of = "\<lambda>sentences.
           map (\<lambda>s. \<lparr>seg_start = 0, seg_end = 0,
                      seg_text = (if last s \<in> {CHR ''.'', CHR ''!'', CHR ''?''} then s else s @ ''.'')\<rparr>)
             (if sentences = [] \<and> ?raw \<noteq> [] then [?raw] else sentences)"
  let ?kept_rows = "\<lambda>all_rows.
           filter (\<lambda>row. row \<noteq> [] \<and> (\<exists>c \<in> set (hd row). \<not> is_space c)) (drop 1 all_rows)"
  have h1: "is_text ''input.csv''"
    by code_simp
  have h2: "files ?W ''input.csv'' = Some ?c"
    by (simp add: stub_world_def)
  have h3: "lower (path_suffix ''input.csv'') \<noteq> ''.txt''"
    by code_simp
  have h4: "csv_reader ?D ?c = Inr [[''Text''], [''Hello world''], [''Goodbye'']]"
    by code_simp
  have ev: "(Inr (detect_lang ?D ?raw,
                  ?segments_of (map (\<lambda>row. strip (hd row))
                    (?kept_rows [[''Text''], [''Hello world''], [''Goodbye'']])))
             :: py_error + string \<times> segment list)
            = Inr (''en'', [\<lparr>seg_start = 0, seg_end = 0, seg_text = ''Hello world.''\<rparr>,
                            \<lparr>seg_start = 0, seg_end = 0, seg_text = ''Goodbye.''\<rparr>])"
    by code_simp
  note t = text_file_segments[OF h1 h2, of ?D False None None, unfolded Let_def]
  note B = t[THEN conjunct2, THEN conjunct1, rule_format, OF conjI, OF h3 h4, THEN conjunct1]
  have "build_segments ?D ?W ''input.csv'' False None None
        = Inr (''en'', [\<lparr>seg_start = 0, seg_end = 0, seg_text = ''Hello world.''\<rparr>,
                        \<lparr>seg_start = 0, seg_end = 0, seg_text = ''Goodbye.''\<rparr>])"
    using B ev by (rule trans)
  with h1 h2 h3 h4 show ?thesis by (intro conjI)
qed

subsection \<open>The artifact does not depend on the world or on the classifier preference\<close>

lemma process_segment_row:
  assumes "process_segment D tr cl ext ity src_lang i seg ls = Inr ls1"
  shows "\<exists>row. rows ls1 = rows ls @ [row] \<and> row ! 2 = seg_text seg"
  using assms
  by (auto simp: process_segment_def make_row_def split: sum.splits prod.splits)

lemma loop_sentences:
  assumes "classify_loop D tr cl ext ity src_lang i segs ls = Inr ls'"
  shows "map (\<lambda>row. row ! 2) (rows ls') = map (\<lambda>row. row ! 2) (rows ls) @ map seg_text segs"
  using assms
proof (induction segs arbitrary: i ls)
  case Nil
  then show ?case by simp
next
  case (Cons seg segs)
  from Cons.prems obtain ls1 where
    s: "process_segment D tr cl ext ity src_lang i seg ls = Inr ls1"
    and r: "classify_loop D tr cl ext ity src_lang (Suc i) segs ls1 = Inr ls'"
    by (auto split: sum.splits)
  from process_segment_row[OF s] obtain row where
    "rows ls1 = rows ls @ [row]" and "row ! 2 = seg_text seg"
    by blast
  with Cons.IH[OF r] show ?case by simp
qed

text \<open>
  C9. Given the identical segment sequence and the same classifier and translation
  stubs, two runs of \<open>predict_any\<close> write the same artifact, whatever else differs in the
  world they start from (the clock, the files already there, the log, the output of an
  earlier run): the second run returns when the first does, names the same file and
  leaves the same text in it, one row per segment in segment order after the header
  row. The history log is taken to be a file other than the artifact.
\<close>

theorem predict_any_artifact_deterministic:
  assumes "predict_any D wa inp model tr cl ext ity cm start_time end_time persist = Inr (sa, wa')"
    and "build_segments D wb inp tr start_time end_time = build_segments D wa inp tr start_time end_time"
    and "environ wb ''TRANSCRIPT_DIR'' = environ wa ''TRANSCRIPT_DIR''"
    and "\<not> (persist \<and> HISTORY_FILE D = csv sa)"
  shows "\<exists>sb wb' src_lang segs (ls :: loop_state).
           predict_any D wb inp model tr cl ext ity cm start_time end_time persist = Inr (sb, wb')
           \<and> csv sb = csv sa
           \<and> files wb' (csv sb) = files wa' (csv sa)
           \<and> build_segments D wa inp tr start_time end_time = Inr (src_lang, segs)
           \<and> files wa' (csv sa) = Some (table_text ity (rows ls))
           \<and> map (\<lambda>row. row ! 2) (rows ls) = map seg_text segs"
proof -
  let ?wa1 = "wa\<lparr>log_records := log_records wa @ [started_message inp model cm],
                 environ := (environ wa)(''WHISPER_MODEL'' \<mapsto> model)\<rparr>"
  let ?wb1 = "wb\<lparr>log_records := log_records wb @ [started_message inp model cm],
                 environ := (environ wb)(''WHISPER_MODEL'' \<mapsto> model)\<rparr>"
  from assms(1) obtain src_lang segs stem ls where
    1: "build_segments D wa inp tr start_time end_time = Inr (src_lang, segs)"
    and 2: "make_safe_stem (urls D) inp = Inr stem"
    and 3: "classify_loop D tr cl ext ity src_lang 0 segs initial_loop_state = Inr ls"
    and 4: "write_results D ?wa1 inp ity persist src_lang (out_path D wa stem) ls = (sa, wa')"
    by (rule predict_any_returns)
  have p: "out_path D wb stem = out_path D wa stem"
    using assms(3) by (simp add: out_path_def)
  obtain sb wb' where
    5: "write_results D ?wb1 inp ity persist src_lang (out_path D wa stem) ls = (sb, wb')"
    by (cases "write_results D ?wb1 inp ity persist src_lang (out_path D wa stem) ls") blast
  have run_b: "predict_any D wb inp model tr cl ext ity cm start_time end_time persist = Inr (sb, wb')"
    unfolding predict_any_unfold using assms(2) 1 2 3 5 p by simp
  from write_results_fields(1)[OF 4] have ca: "csv sa = out_path D wa stem" by simp
  from write_results_fields(1)[OF 5] have cb: "csv sb = out_path D wa stem" by simp
  from assms(4) ca have nh: "\<not> (persist \<and> HISTORY_FILE D = out_path D wa stem)" by simp
  from write_results_fields(6)[OF 4 nh]
  have fa: "files wa' (csv sa) = Some (table_text ity (rows ls))"
    unfolding ca .
  from write_results_fields(6)[OF 5 nh]
  have fb: "files wb' (csv sb) = Some (table_text ity (rows ls))"
    unfolding cb .
  from loop_sentences[OF 3]
  have o: "map (\<lambda>row. row ! 2) (rows ls) = map seg_text segs"
    by (simp add: initial_loop_state_def)
  from run_b ca cb fa fb 1 o show ?thesis by auto
qed

theorem predict_any_artifact_deterministic_witness:
  "\<exists>sa wa' sb wb'.
     predict_any (stub_deps (always ''joy'') (always ''joy''))
        (stub_world ''input.csv'' ''Text\<newline>Hello world\<newline>Goodbye'' ''2025-06-25T10:30:00Z'')
        ''input.csv'' ''base'' False True False False None None None True = Inr (sa, wa')
     \<and> predict_any (stub_deps (always ''joy'') (always ''joy''))
        (wa'\<lparr>clock := ''2025-06-25T10:31:00Z''\<rparr>)
        ''input.csv'' ''base'' False True False False None None None True = Inr (sb, wb')
     \<and> csv sb = csv sa
     \<and> files wb' (csv sb) = files wa' (csv sa)
     \<and> timestamp sb \<noteq> timestamp sa"
proof -
  let ?D = "stub_deps (always ''joy'') (always ''joy'')"
  let ?wa = "stub_world ''input.csv'' ''Text\<newline>Hello world\<newline>Goodbye'' ''2025-06-25T10:30:00Z''"
  let ?run = "predict_any ?D ?wa ''input.csv'' ''base'' False True False False None None None True"
  let ?sa = "fst (projr ?run)"
  let ?wa' = "snd (projr ?run)"
  let ?wb = "?wa'\<lparr>clock := ''2025-06-25T10:31:00Z''\<rparr>"
  have "\<not> isl ?run"
    by code_simp
  then have r: "?run = Inr (?sa, ?wa')"
    by (cases ?run) auto
  have h2: "build_segments ?D ?wb ''input.csv'' False None None
            = build_segments ?D ?wa ''input.csv'' False None None"
    by code_simp
  have h3: "environ ?wb ''TRANSCRIPT_DIR'' = environ ?wa ''TRANSCRIPT_DIR''"
    by code_simp
  have h4: "\<not> (True \<and> HISTORY_FILE ?D = csv ?sa)"
    by code_simp
  have ta: "timestamp ?sa = ''2025-06-25T10:30:00Z''"
    by code_simp
  from predict_any_artifact_deterministic[OF r h2 h3 h4] obtain sb wb' where
    b: "predict_any ?D ?wb ''input.csv'' ''base'' False True False False None None None True
          = Inr (sb, wb')"
    and c: "csv sb = csv ?sa" and f: "files wb' (csv sb) = files ?wa' (csv ?sa)"
    by blast
  from b obtain src_lang segs stem ls where
    "write_results ?D
       (?wb\<lparr>log_records := log_records ?wb @ [started_message ''input.csv'' ''base'' None],
             environ := (environ ?wb)(''WHISPER_MODEL'' \<mapsto> ''base'')\<rparr>)
       ''input.csv'' False True src_lang (out_path ?D ?wb stem) ls = (sb, wb')"
    by (rule predict_any_returns)
  from write_results_fields(1)[OF this] have "timestamp sb = ''2025-06-25T10:31:00Z''"
    by simp
  with ta have "timestamp sb \<noteq> timestamp ?sa" by simp
  with r b c f show ?thesis by blast
qed

text \<open>
  C10. The \<open>classifier_model\<close> argument of \<open>predict_any\<close> has no effect on the result: two
  runs that differ in nothing but \<open>classifier_model\<close> raise the same error or return the
  same summary and leave the same files, environment and classifier calls; the argument
  only appears in the first log record.
\<close>

theorem classifier_model_ignored:
  "(\<forall>e. predict_any D w inp model tr cl ext ity cm1 start_time end_time persist = Inl e
        \<longrightarrow> predict_any D w inp model tr cl ext ity cm2 start_time end_time persist = Inl e)
   \<and> (\<forall>s w1. predict_any D w inp model tr cl ext ity cm1 start_time end_time persist = Inr (s, w1)
        \<longrightarrow> (\<exists>w2. predict_any D w inp model tr cl ext ity cm2 start_time end_time persist = Inr (s, w2)
               \<and> files w2 = files w1 \<and> environ w2 = environ w1 \<and> clock w2 = clock w1
               \<and> classifier_calls w2 = classifier_calls w1
               \<and> log_records w1 = log_records w @ [started_message inp model cm1]
               \<and> log_records w2 = log_records w @ [started_message inp model cm2]))"
proof (intro conjI allI impI)
  fix e
  assume "predict_any D w inp model tr cl ext ity cm1 start_time end_time persist = Inl e"
  then show "predict_any D w inp model tr cl ext ity cm2 start_time end_time persist = Inl e"
    unfolding predict_any_unfold
    by (auto split: sum.splits prod.splits)
next
  fix s w1
  let ?w1 = "\<lambda>cm. w\<lparr>log_records := log_records w @ [started_message inp model cm],
                      environ := (environ w)(''WHISPER_MODEL'' \<mapsto> model)\<rparr>"
  assume "predict_any D w inp model tr cl ext ity cm1 start_time end_time persist = Inr (s, w1)"
  then obtain src_lang segs stem ls where
    1: "build_segments D w inp tr start_time end_time = Inr (src_lang, segs)"
    and 2: "make_safe_stem (urls D) inp = Inr stem"
    and 3: "classify_loop D tr cl ext ity src_lang 0 segs initial_loop_state = Inr ls"
    and 4: "write_results D (?w1 cm1) inp ity persist src_lang (out_path D w stem) ls = (s, w1)"
    by (rule predict_any_returns)
  let ?w2 = "snd (write_results D (?w1 cm2) inp ity persist src_lang (out_path D w stem) ls)"
  have 5: "write_results D (?w1 cm2) inp ity persist src_lang (out_path D w stem) ls = (s, ?w2)"
    using 4 by (auto simp: write_results_def Let_def)
  have run2: "predict_any D w inp model tr cl ext ity cm2 start_time end_time persist = Inr (s, ?w2)"
    unfolding predict_any_unfold using 1 2 3 5 by simp
  have same: "files ?w2 = files w1" "environ ?w2 = environ w1" "clock ?w2 = clock w1"
    "classifier_calls ?w2 = classifier_calls w1"
    using 4 by (auto simp: write_results_def log_inference_def Let_def)
  have logs: "log_records w1 = log_records w @ [started_message inp model cm1]"
    "log_records ?w2 = log_records w @ [started_message inp model cm2]"
    using write_results_fields(5)[OF 4] write_results_fields(5)[OF 5] by simp_all
  from run2 same logs
  show "\<exists>w2. predict_any D w inp model tr cl ext ity cm2 start_time end_time persist = Inr (s, w2)
               \<and> files w2 = files w1 \<and> environ w2 = environ w1 \<and> clock w2 = clock w1
               \<and> classifier_calls w2 = classifier_calls w1
               \<and> log_records w1 = log_records w @ [started_message inp model cm1]
               \<and> log_records w2 = log_records w @ [started_message inp model cm2]"
    by blast
qed

theorem classifier_model_ignored_witness:
  "\<exists>s w1 w2.
     predict_any (stub_deps (always ''joy'') (always ''sad''))
        (stub_world ''input.csv'' ''Text\<newline>Hello world\<newline>Goodbye'' ''2025-06-25T10:30:00Z'')
        ''input.csv'' ''turbo'' True True True True (Some ''bert'') None None True = Inr (s, w1)
     \<and> predict_any (stub_deps (always ''joy'') (always ''sad''))
        (stub_world ''input.csv'' ''Text\<newline>Hello world\<newline>Goodbye'' ''2025-06-25T10:30:00Z'')
        ''input.csv'' ''turbo'' True True True True (Some ''llama'') None None True = Inr (s, w2)
     \<and> files w2 = files w1
     \<and> log_records w1 \<noteq> log_records w2"
proof -
  let ?D = "stub_deps (always ''joy'') (always ''sad'')"
  let ?w = "stub_world ''input.csv'' ''Text\<newline>Hello world\<newline>Goodbye'' ''2025-06-25T10:30:00Z''"
  let ?run = "predict_any ?D ?w ''input.csv'' ''turbo'' True True True True (Some ''bert'') None None True"
  have "\<not> isl ?run"
    by code_simp
  then obtain s w1 where r: "?run = Inr (s, w1)"
    by (cases ?run) auto
  have m: "started_message ''input.csv'' ''turbo'' (Some ''bert'')
           \<noteq> started_message ''input.csv'' ''turbo'' (Some ''llama'')"
    by (simp add: started_message_def)
  from classifier_model_ignored[of ?D ?w "''input.csv''" "''turbo''" True True True True
      "Some ''bert''" None None True "Some ''llama''"] r
  obtain w2 where
    "predict_any ?D ?w ''input.csv'' ''turbo'' True True True True (Some ''llama'') None None True
       = Inr (s, w2)"
    and "files w2 = files w1"
    and "log_records w1 = log_records ?w @ [started_message ''input.csv'' ''turbo'' (Some ''bert'')]"
    and "log_records w2 = log_records ?w @ [started_message ''input.csv'' ''turbo'' (Some ''llama'')]"
    by blast
  with r m show ?thesis by auto
qed

end
